theory Spec2Isabelle
  imports Main "HOL-Library.Sublist" "HOL-Library.Word"
begin

section \<open>C strings and character buffers\<close>

text \<open>
  A buffer (\<^verbatim>\<open>char userInput[MAX_COMMAND_LENGTH]\<close>) is the list of its bytes. The arrays of
  smallsh.c are zero-filled (\<^verbatim>\<open>= ""\<close>, \<^verbatim>\<open>strncpy\<close> pads with NUL), so a byte past the
  end of the list reads as NUL. The C string held in a buffer is the bytes before
  its first NUL.
\<close>

abbreviation NUL :: char where "NUL \<equiv> CHR 0x00"
abbreviation SP :: char where "SP \<equiv> CHR '' ''"
abbreviation NL :: char where "NL \<equiv> CHR 0x0A"

definition MAX_ARGS :: nat where "MAX_ARGS = 513"
definition MAX_COMMAND_LENGTH :: nat where "MAX_COMMAND_LENGTH = 2048"
definition MAX_ERR_MSG_LENGTH :: nat where "MAX_ERR_MSG_LENGTH = 80"

definition cstr :: "char list \<Rightarrow> string" where
  "cstr b = takeWhile (\<lambda>c. c \<noteq> NUL) b"

text \<open>\<^verbatim>\<open>strstr\<close> of the C library: the tail of the string at the first occurrence
  of the needle, \<^verbatim>\<open>None\<close> for the null pointer.\<close>

fun strstr :: "string \<Rightarrow> string \<Rightarrow> string option" where
  "strstr [] t = (if t = [] then Some [] else None)"
| "strstr (c # s) t = (if prefix t (c # s) then Some (c # s) else strstr s t)"

definition ContainsString :: "char list \<Rightarrow> string \<Rightarrow> int" where
  "ContainsString stringToSearch stringToSearchFor =
     (let foundStringPointer = strstr (cstr stringToSearch) stringToSearchFor
      in if foundStringPointer = None then 0 else 1)"

text \<open>
  \<^verbatim>\<open>strtok(s, " ")\<close> of the C library, with the buffer written out. The state is the
  buffer cut at the save pointer: the bytes before it (as \<^verbatim>\<open>strtok\<close> has left them) and
  the bytes from it on. A call skips the leading spaces; at the end of the string it
  returns the null pointer; otherwise the token runs to the next space or to the end
  of the string, a space that ends it is overwritten with NUL, and the save pointer
  moves behind it. The token returned is NUL-terminated from then on and no later
  call writes into it, so it is given by its characters.
\<close>

definition strtok_from :: "char list \<Rightarrow> char list \<Rightarrow> string option \<times> char list \<times> char list" where
  "strtok_from pre s =
     (let s1 = dropWhile (\<lambda>c. c = SP) s;
          skipped = pre @ takeWhile (\<lambda>c. c = SP) s
      in if cstr s1 = [] then (None, skipped, s1)
         else let tok = takeWhile (\<lambda>c. c \<noteq> SP) (cstr s1);
                  e = drop (length tok) s1
              in if cstr e = [] then (Some tok, skipped @ tok, e)
                 else (Some tok, skipped @ tok @ [NUL], tl e))"

text \<open>\<^verbatim>\<open>strncpy(dst, src, n)\<close> into a zero-filled buffer of \<^verbatim>\<open>n\<close> bytes, read back as a
  C string.\<close>

definition strncpy :: "string \<Rightarrow> nat \<Rightarrow> string" where
  "strncpy src n = take n src"

section \<open>The argument array\<close>

text \<open>\<^verbatim>\<open>char *argv[MAX_ARGS]\<close>: a slot holds a token or the null pointer.\<close>

definition InitializeArgsArray :: "string option list \<Rightarrow> string option list" where
  "InitializeArgsArray argv = foldl (\<lambda>a i. a[i := None]) argv [0..<MAX_ARGS]"

text \<open>The argument sequence a reader of the array sees (\<^verbatim>\<open>execvp\<close>): the slots before
  the first null pointer.\<close>

definition argv_seq :: "string option list \<Rightarrow> string list" where
  "argv_seq argv = map the (takeWhile (\<lambda>a. a \<noteq> None) argv)"
section \<open>ParseUserInputToArgs\<close>

text \<open>Facts on \<^verbatim>\<open>cstr\<close> and \<^verbatim>\<open>strtok\<close> for the termination of the loops: a call
  that returns a token moves the save pointer forward.\<close>

lemma cstr_Nil [simp]: "cstr [] = []" by (simp add: cstr_def)
lemma cstr_Cons [simp]: "cstr (c # b) = (if c = NUL then [] else c # cstr b)" by (simp add: cstr_def)
lemma cstr_eq_Nil_iff: "cstr b = [] \<longleftrightarrow> b = [] \<or> hd b = NUL" by (cases b) auto
lemma hd_cstr: "cstr b \<noteq> [] \<Longrightarrow> hd (cstr b) = hd b" by (cases b) (auto split: if_splits)
lemma length_cstr_le: "length (cstr b) \<le> length b" by (simp add: cstr_def length_takeWhile_le)

lemma strtok_from_shorter:
  assumes "strtok_from pre s = (Some t, b', s')"
  shows "length s' < length s"
proof -
  define s1 where "s1 = dropWhile (\<lambda>c. c = SP) s"
  define tok where "tok = takeWhile (\<lambda>c. c \<noteq> SP) (cstr s1)"
  from assms have ne: "cstr s1 \<noteq> []"
    by (simp add: strtok_from_def Let_def s1_def split: if_splits)
  then have s1: "s1 \<noteq> []" by auto
  then have "hd s1 \<noteq> SP" unfolding s1_def by (rule hd_dropWhile)
  with ne have "hd (cstr s1) \<noteq> SP" by (simp add: hd_cstr)
  with ne have "tok \<noteq> []" unfolding tok_def by (cases "cstr s1") auto
  then obtain c cs where tc: "tok = c # cs" by (cases tok) auto
  have "length tok \<le> length s1"
    unfolding tok_def by (rule order_trans [OF length_takeWhile_le length_cstr_le])
  moreover have "length s1 \<le> length s" unfolding s1_def by (rule length_dropWhile_le)
  moreover from assms ne have "s' = drop (length tok) s1 \<or> s' = tl (drop (length tok) s1)"
    by (auto simp: strtok_from_def Let_def s1_def [symmetric] tok_def [symmetric] split: if_splits)
  ultimately show ?thesis by (auto simp: tc)
qed

text \<open>
  The \<^verbatim>\<open>while\<close> loop, from the token in \<^verbatim>\<open>currentToken\<close>: it gives the state of
  \<^verbatim>\<open>strtok\<close>, \<^verbatim>\<open>currentTokenNumber\<close> and the array at the exit of the loop. Entered
  with \<^verbatim>\<open>currentTokenNumber = 0\<close> it leaves with at most \<^verbatim>\<open>MAX_ARGS - 1\<close> (lemma
  \<open>Parse_loop_collect\<close> below), so that every index written is one of the array.
\<close>

function ParseUserInputToArgs_loop ::
  "int \<Rightarrow> int \<Rightarrow> string option \<Rightarrow> char list \<times> char list \<Rightarrow> nat \<Rightarrow> string option list
     \<Rightarrow> (char list \<times> char list) \<times> nat \<times> string option list" where
  "ParseUserInputToArgs_loop HasOutputRedirect HasInputRedirect currentToken st currentTokenNumber returnArr =
     (case currentToken of
        None \<Rightarrow> (st, currentTokenNumber, returnArr)
      | Some t \<Rightarrow>
          if HasOutputRedirect = 1 \<and> t = ''>'' then (st, currentTokenNumber, returnArr)
          else if HasInputRedirect = 1 \<and> t = ''<'' then (st, currentTokenNumber, returnArr)
          else if t = ''&'' then (st, currentTokenNumber, returnArr)
          else (case strtok_from (fst st) (snd st) of
                  (nextToken, st') \<Rightarrow>
                    if currentTokenNumber + 1 = MAX_ARGS - 1
                    then (st', currentTokenNumber + 1,
                          (returnArr[currentTokenNumber := Some t])[MAX_ARGS - 1 := None])
                    else ParseUserInputToArgs_loop HasOutputRedirect HasInputRedirect nextToken st'
                           (currentTokenNumber + 1) (returnArr[currentTokenNumber := Some t])))"
  by pat_completeness auto
termination
  apply (relation "measure (\<lambda>(ho, hi, tok, st, n, arr).
          case tok of None \<Rightarrow> 0 | Some _ \<Rightarrow> Suc (length (snd st)))")
   apply simp
  apply (auto split: option.splits dest: strtok_from_shorter [OF sym])
  done

text \<open>The function gives the buffer as \<^verbatim>\<open>strtok\<close> has left it and the array.\<close>

definition ParseUserInputToArgs :: "char list \<Rightarrow> string option list \<Rightarrow> char list \<times> string option list" where
  "ParseUserInputToArgs userCommand returnArr =
     (let HasOutputRedirect = ContainsString userCommand ''>'';
          HasInputRedirect = ContainsString userCommand ''<''
      in case strtok_from [] userCommand of
           (currentToken, st) \<Rightarrow>
             (case ParseUserInputToArgs_loop HasOutputRedirect HasInputRedirect currentToken st 0 returnArr of
                (st', currentTokenNumber, arr) \<Rightarrow>
                  (fst st' @ snd st', arr[currentTokenNumber := None])))"

declare ParseUserInputToArgs_loop.simps [simp del]

section \<open>GetFileName\<close>

text \<open>The \<^verbatim>\<open>while\<close> loop: it gives the state of \<^verbatim>\<open>strtok\<close>, \<^verbatim>\<open>currentTokenNumber\<close>,
  \<^verbatim>\<open>redirSymPosition\<close> and \<^verbatim>\<open>tempArray\<close> at the exit of the loop.\<close>

function GetFileName_loop ::
  "string option \<Rightarrow> char list \<times> char list \<Rightarrow> nat \<Rightarrow> nat \<Rightarrow> string option list
     \<Rightarrow> (char list \<times> char list) \<times> nat \<times> nat \<times> string option list" where
  "GetFileName_loop currentToken st currentTokenNumber redirSymPosition tempArray =
     (case currentToken of
        None \<Rightarrow> (st, currentTokenNumber, redirSymPosition, tempArray)
      | Some t \<Rightarrow>
          (case strtok_from (fst st) (snd st) of
             (nextToken, st') \<Rightarrow>
               if currentTokenNumber + 1 = MAX_ARGS - 1
               then (st', currentTokenNumber + 1,
                     (if t = ''<'' \<or> t = ''>'' then currentTokenNumber else redirSymPosition),
                     (tempArray[currentTokenNumber := Some t])[MAX_ARGS - 1 := None])
               else GetFileName_loop nextToken st' (currentTokenNumber + 1)
                      (if t = ''<'' \<or> t = ''>'' then currentTokenNumber else redirSymPosition)
                      (tempArray[currentTokenNumber := Some t])))"
  by pat_completeness auto
termination
  apply (relation "measure (\<lambda>(tok, st, n, p, arr).
          case tok of None \<Rightarrow> 0 | Some _ \<Rightarrow> Suc (length (snd st)))")
   apply simp
  apply (auto split: option.splits dest: strtok_from_shorter [OF sym])
  done

declare GetFileName_loop.simps [simp del]

text \<open>
  The function gives the buffer as \<^verbatim>\<open>strtok\<close> has left it and the file name buffer
  \<^verbatim>\<open>returnValue\<close>. The local array \<^verbatim>\<open>tempArray\<close> is declared without a value and then
  passed to \<^verbatim>\<open>InitializeArgsArray\<close>, which overwrites every slot; the slot read at the
  end has an index of at most \<^verbatim>\<open>MAX_ARGS - 1\<close> (lemmas \<open>GetFileName_loop_collect\<close> and
  \<open>last_redirect_range\<close> below).
\<close>

definition GetFileName :: "char list \<Rightarrow> string \<Rightarrow> char list \<times> string" where
  "GetFileName userCommand returnValue =
     (if ContainsString userCommand ''<'' = 0 \<and> ContainsString userCommand ''>'' = 0
      then (userCommand, returnValue)
      else case strtok_from [] userCommand of
             (currentToken, st) \<Rightarrow>
               (case GetFileName_loop currentToken st 0 0 (InitializeArgsArray (replicate MAX_ARGS None)) of
                  (st', currentTokenNumber, redirSymPosition, tempArray) \<Rightarrow>
                    (fst st' @ snd st',
                     case tempArray ! (redirSymPosition + 1) of
                       None \<Rightarrow> returnValue
                     | Some t \<Rightarrow> strncpy t MAX_COMMAND_LENGTH)))"

section \<open>Processes, descriptors and wait statuses\<close>

text \<open>
  What the operating system answers is a parameter of the model: which files can be
  opened, what \<^verbatim>\<open>fork\<close> returns in the shell, whether \<^verbatim>\<open>execvp\<close> finds the program,
  how the program ends, whether a process killed by a signal leaves a core file, and
  whether the \<^verbatim>\<open>waitpid\<close> of the foreground launcher stores the status of the spawned
  process. That call returns -1 and stores nothing when a signal handler interrupts it
  (\<^verbatim>\<open>main\<close> installs \<^verbatim>\<open>sigchld_handler\<close> from a \<^verbatim>\<open>struct sigaction\<close> it never initialises,
  so restarting is not requested) and when the handler has reaped the process before.
  A descriptor is the open file it stands for, or the value
  \<^verbatim>\<open>-1\<close>; \<^verbatim>\<open>dup2\<close> fails on \<^verbatim>\<open>-1\<close> only.
\<close>

datatype open_flags = O_RDONLY | O_WRONLY_O_TRUNC_O_CREAT

datatype fd = Bad_fd | Fd string open_flags

datatype ending = Exited nat | Signaled nat bool

record os =
  can_open :: "string \<Rightarrow> open_flags \<Rightarrow> bool"
  home :: "string option"
  fork_pid :: int
  execvp_ok :: bool
  program_end :: ending
  core_dumps :: bool
  waitpid_ok :: bool

definition os_open :: "os \<Rightarrow> string \<Rightarrow> open_flags \<Rightarrow> fd" where
  "os_open w fileName flags = (if can_open w fileName flags then Fd fileName flags else Bad_fd)"

definition dup2_fails :: "fd \<Rightarrow> bool" where
  "dup2_fails d = (d = Bad_fd)"

text \<open>
  The status word \<^verbatim>\<open>waitpid\<close> stores and the macros of \<^verbatim>\<open>sys/wait.h\<close> (Linux, glibc),
  with the masks and shifts written as \<^verbatim>\<open>mod\<close> and \<^verbatim>\<open>div\<close>: the exit code is bits 8 to 15,
  the terminating signal bits 0 to 6, bit 7 the core-dump flag.
\<close>

fun wait_status :: "ending \<Rightarrow> int" where
  "wait_status (Exited code) = int (code mod 256) * 256"
| "wait_status (Signaled n core) = int n + (if core then 128 else 0)"

declare wait_status.simps [simp del]

definition WEXITSTATUS :: "int \<Rightarrow> int" where
  "WEXITSTATUS status = (status div 256) mod 256"

definition WTERMSIG :: "int \<Rightarrow> int" where
  "WTERMSIG status = status mod 128"

definition WIFSIGNALED :: "int \<Rightarrow> bool" where
  "WIFSIGNALED status =
     (let v = status mod 128 + 1;
          signed_char = (if 128 \<le> v then v - 256 else v)
      in 0 < signed_char div 2)"

text \<open>\<^verbatim>\<open>snprintf(buf, size, "%d", i)\<close>: the decimal digits, cut to \<^verbatim>\<open>size - 1\<close> characters.\<close>

fun digits_of :: "nat \<Rightarrow> string" where
  "digits_of n =
     (if n < 10 then [''0123456789'' ! n]
      else digits_of (n div 10) @ [''0123456789'' ! (n mod 10)])"

declare digits_of.simps [simp del]

definition show_int :: "int \<Rightarrow> string" where
  "show_int i = (if i < 0 then CHR ''-'' # digits_of (nat (- i)) else digits_of (nat i))"

definition snprintf_d :: "nat \<Rightarrow> int \<Rightarrow> string" where
  "snprintf_d n i = take (n - 1) (show_int i)"

text \<open>The spawned process: what its standard input and output are bound to
  (\<^verbatim>\<open>None\<close>: inherited from the shell), what the shell's own code printed in it, the
  argument sequence of the program that replaced it (if \<^verbatim>\<open>execvp\<close> succeeded), and how
  it ended.\<close>

record child =
  child_stdin :: "fd option"
  child_stdout :: "fd option"
  child_printed :: string
  child_image :: "string list option"
  child_end :: ending

datatype 'a run = Shell_exit int | Returns 'a

definition no_such_file :: "string option list \<Rightarrow> string" where
  "no_such_file argv =
     (case argv ! 0 of None \<Rightarrow> ''(null)'' | Some a \<Rightarrow> a) @ '': no such file or directory'' @ [NL]"

definition cannot_open :: "string \<Rightarrow> string" where
  "cannot_open fileName = ''smallsh: cannot open '' @ fileName @ '' for input'' @ [NL]"

definition SIGSEGV :: nat where "SIGSEGV = 11"

text \<open>The last three statements of \<^verbatim>\<open>case 0\<close> in both launchers: \<^verbatim>\<open>execvp(argv[0], argv)\<close>,
  and the \<^verbatim>\<open>printf\<close> and \<^verbatim>\<open>exit(1)\<close> that run when it returns. With \<^verbatim>\<open>argv[0]\<close> the null
  pointer (no token was parsed) \<^verbatim>\<open>execvp\<close> reads the first character of the name and
  the process is killed by \<^verbatim>\<open>SIGSEGV\<close>; nothing is printed.\<close>

definition execvp :: "os \<Rightarrow> fd option \<Rightarrow> fd option \<Rightarrow> string option list \<Rightarrow> child" where
  "execvp w inp out argv =
     (case argv ! 0 of
        None \<Rightarrow> \<lparr>child_stdin = inp, child_stdout = out, child_printed = [],
                 child_image = None, child_end = Signaled SIGSEGV (core_dumps w)\<rparr>
      | Some file \<Rightarrow>
          if execvp_ok w
          then \<lparr>child_stdin = inp, child_stdout = out, child_printed = [],
                child_image = Some (argv_seq argv), child_end = program_end w\<rparr>
          else \<lparr>child_stdin = inp, child_stdout = out, child_printed = no_such_file argv,
                child_image = None, child_end = Exited 1\<rparr>)"

section \<open>RunForeGroundCommand\<close>

record fg_result =
  fg_return :: int
  fg_errMsg :: string
  fg_stdout :: string
  fg_opened :: "(string \<times> open_flags) list"
  fg_child :: child

text \<open>The code of \<^verbatim>\<open>case 0\<close>, run by the spawned process.\<close>

definition fg_child_code :: "os \<Rightarrow> int \<Rightarrow> int \<Rightarrow> fd \<Rightarrow> string \<Rightarrow> string option list \<Rightarrow> child" where
  "fg_child_code w hasOutputRedirect hasInputRedirect d fileName argv =
     (if hasOutputRedirect \<noteq> 0 \<and> dup2_fails d
      then \<lparr>child_stdin = None, child_stdout = None, child_printed = [],
            child_image = None, child_end = Exited 1\<rparr>
      else if hasInputRedirect \<noteq> 0 \<and> dup2_fails d
      then \<lparr>child_stdin = None, child_stdout = (if hasOutputRedirect \<noteq> 0 then Some d else None),
            child_printed = cannot_open fileName, child_image = None, child_end = Exited 1\<rparr>
      else execvp w (if hasInputRedirect \<noteq> 0 then Some d else None)
                    (if hasOutputRedirect \<noteq> 0 then Some d else None) argv)"

text \<open>The code of the \<^verbatim>\<open>default\<close> case that follows the call of \<^verbatim>\<open>waitpid\<close>, run by
  the shell on the value of \<^verbatim>\<open>status\<close>.\<close>

definition fg_parent_code :: "int \<Rightarrow> string \<Rightarrow> int \<times> string \<times> string" where
  "fg_parent_code status errMsg =
     (let returnStatus = WEXITSTATUS status
      in if WIFSIGNALED status
         then let signalNumber = WTERMSIG status;
                  signalNumberStr = snprintf_d 10 signalNumber;
                  terminateMsg = strncpy ''terminated by signal '' MAX_ERR_MSG_LENGTH @ signalNumberStr
              in (returnStatus, strncpy terminateMsg MAX_ERR_MSG_LENGTH, terminateMsg @ [NL])
         else (returnStatus, errMsg, []))"

text \<open>The two \<^verbatim>\<open>if\<close> blocks that resolve and open the redirection targets: the buffer
  as \<^verbatim>\<open>GetFileName\<close> leaves it, \<^verbatim>\<open>fileName\<close>, \<^verbatim>\<open>fd\<close>, and the files opened, in order.\<close>

definition fg_redirects ::
  "os \<Rightarrow> char list \<Rightarrow> int \<Rightarrow> int \<Rightarrow> char list \<times> string \<times> fd \<times> (string \<times> open_flags) list" where
  "fg_redirects w userCommand hasOutputRedirect hasInputRedirect =
     (case (if hasOutputRedirect = 1
            then case GetFileName userCommand [] of
                   (uc, f) \<Rightarrow> (uc, f, os_open w f O_WRONLY_O_TRUNC_O_CREAT, [(f, O_WRONLY_O_TRUNC_O_CREAT)])
            else (userCommand, [], Bad_fd, [])) of
        (uc1, fileName1, fd1, opened1) \<Rightarrow>
          if hasInputRedirect = 1
          then case GetFileName uc1 fileName1 of
                 (uc, f) \<Rightarrow> (uc, f, os_open w f O_RDONLY, opened1 @ [(f, O_RDONLY)])
          else (uc1, fileName1, fd1, opened1))"

text \<open>\<^verbatim>\<open>status\<close> is initialised to 0 and the value \<^verbatim>\<open>waitpid\<close> returns is not looked at:
  when the call stores nothing, the code after it decodes 0.\<close>

definition RunForeGroundCommand :: "os \<Rightarrow> char list \<Rightarrow> string \<Rightarrow> fg_result run" where
  "RunForeGroundCommand w userCommand errMsg =
     (let hasOutputRedirect = ContainsString userCommand ''>'';
          hasInputRedirect = ContainsString userCommand ''<'';
          argv0 = InitializeArgsArray (replicate MAX_ARGS None)
      in case fg_redirects w userCommand hasOutputRedirect hasInputRedirect of
           (uc2, fileName, d, opened) \<Rightarrow>
             (case ParseUserInputToArgs uc2 argv0 of
                (uc3, argv) \<Rightarrow>
                  if fork_pid w = - 1 then Shell_exit 1
                  else let c = fg_child_code w hasOutputRedirect hasInputRedirect d fileName argv;
                           status = (if waitpid_ok w then wait_status (child_end c) else 0)
                       in case fg_parent_code status errMsg of
                            (returnStatus, errMsg', printed) \<Rightarrow>
                              Returns \<lparr>fg_return = returnStatus, fg_errMsg = errMsg',
                                       fg_stdout = printed, fg_opened = opened, fg_child = c\<rparr>))"

section \<open>RunBackGroundCommand\<close>

record bg_result =
  bg_return :: int
  bg_stdout :: string
  bg_opened :: "(string \<times> open_flags) list"
  bg_child :: child

definition bg_child_code :: "os \<Rightarrow> int \<Rightarrow> fd \<Rightarrow> string \<Rightarrow> string option list \<Rightarrow> child" where
  "bg_child_code w hasOutputRedirect d fileName argv =
     (if hasOutputRedirect \<noteq> 0 \<and> dup2_fails d
      then \<lparr>child_stdin = None, child_stdout = None, child_printed = [],
            child_image = None, child_end = Exited 1\<rparr>
      else if dup2_fails d
      then \<lparr>child_stdin = None, child_stdout = (if hasOutputRedirect \<noteq> 0 then Some d else None),
            child_printed = cannot_open fileName, child_image = None, child_end = Exited 1\<rparr>
      else execvp w (Some d) (if hasOutputRedirect \<noteq> 0 then Some d else None) argv)"

definition bg_redirects ::
  "os \<Rightarrow> char list \<Rightarrow> int \<Rightarrow> int \<Rightarrow> char list \<times> string \<times> fd \<times> (string \<times> open_flags) list" where
  "bg_redirects w userCommand hasOutputRedirect hasInputRedirect =
     (case (if hasOutputRedirect = 1
            then case GetFileName userCommand [] of
                   (uc, f) \<Rightarrow> (uc, f, os_open w f O_WRONLY_O_TRUNC_O_CREAT, [(f, O_WRONLY_O_TRUNC_O_CREAT)])
            else (userCommand, [], Bad_fd, [])) of
        (uc1, fileName1, fd1, opened1) \<Rightarrow>
          if hasInputRedirect = 1
          then case GetFileName uc1 fileName1 of
                 (uc, f) \<Rightarrow> (uc, f, os_open w f O_RDONLY, opened1 @ [(f, O_RDONLY)])
          else (uc1, fileName1, os_open w ''/dev/null'' O_RDONLY, opened1 @ [(''/dev/null'', O_RDONLY)]))"

definition RunBackGroundCommand :: "os \<Rightarrow> char list \<Rightarrow> bg_result run" where
  "RunBackGroundCommand w userCommand =
     (let returnStatus = 0;
          hasOutputRedirect = ContainsString userCommand ''>'';
          hasInputRedirect = ContainsString userCommand ''<'';
          argv0 = InitializeArgsArray (replicate MAX_ARGS None)
      in case bg_redirects w userCommand hasOutputRedirect hasInputRedirect of
           (uc2, fileName, d, opened) \<Rightarrow>
             (case ParseUserInputToArgs uc2 argv0 of
                (uc3, argv) \<Rightarrow>
                  if fork_pid w = - 1 then Shell_exit 1
                  else Returns \<lparr>bg_return = returnStatus,
                                bg_stdout = ''background pid is '' @ snprintf_d 10 (fork_pid w) @ [NL],
                                bg_opened = opened,
                                bg_child = bg_child_code w hasOutputRedirect d fileName argv\<rparr>))"

text \<open>An operating system in which every call succeeds and the program ends as given.\<close>

definition os_ok :: "ending \<Rightarrow> os" where
  "os_ok e = \<lparr>can_open = (\<lambda>f m. True), home = Some ''/home/user'', fork_pid = 4923,
              execvp_ok = True, program_end = e, core_dumps = False, waitpid_ok = True\<rparr>"

section \<open>sigchld_handler\<close>

text \<open>The bytes of a zero-filled \<^verbatim>\<open>char\<close> array of \<^verbatim>\<open>n\<close> bytes that holds the C string
  \<^verbatim>\<open>s\<close>, as \<^verbatim>\<open>write(1, array, sizeof(array))\<close> sends them.\<close>

definition array_bytes :: "nat \<Rightarrow> string \<Rightarrow> char list" where
  "array_bytes n s = take n (s @ replicate (n - length s) NUL)"

definition childTerminateMsg :: "int \<Rightarrow> int \<Rightarrow> string" where
  "childTerminateMsg childPid status =
     (let pidNumberStr = snprintf_d 10 childPid;
          msg = strncpy ([NL] @ ''background pid '') MAX_ERR_MSG_LENGTH @ pidNumberStr @ '' is done: ''
      in if WIFSIGNALED status
         then msg @ ''terminated by signal '' @ snprintf_d 10 (WTERMSIG status) @ [NL]
         else msg @ ''exit value '' @ snprintf_d 5 (WEXITSTATUS status) @ [NL])"

text \<open>
  The handler's loop over \<^verbatim>\<open>waitpid(-1, &status, WNOHANG)\<close>. The argument lists the
  children that have terminated and are not yet waited for, in the order \<^verbatim>\<open>waitpid\<close>
  hands them out; with none left \<^verbatim>\<open>waitpid\<close> returns 0 or -1 and the loop ends. The
  result is the children left and the bytes written to descriptor 1.
\<close>

fun sigchld_handler :: "(int \<times> ending) list \<Rightarrow> (int \<times> ending) list \<times> char list" where
  "sigchld_handler [] = ([], [])"
| "sigchld_handler ((childPid, e) # zombies) =
     (if childPid > 0
      then case sigchld_handler zombies of
             (left, written) \<Rightarrow>
               (left, array_bytes MAX_ERR_MSG_LENGTH (childTerminateMsg childPid (wait_status e)) @ written)
      else ((childPid, e) # zombies, []))"

section \<open>RemoveNewLineAndAddNullTerm and RunShellLoop\<close>

datatype fault = Out_of_bounds

definition byte_at :: "char list \<Rightarrow> nat \<Rightarrow> char" where
  "byte_at b i = (if i < length b then b ! i else NUL)"

text \<open>\<^verbatim>\<open>size_t\<close> is a 64-bit unsigned integer; the subtraction wraps. The argument is
  the array \<^verbatim>\<open>userInput\<close> of \<^verbatim>\<open>MAX_COMMAND_LENGTH\<close> bytes: an index from there on is out
  of bounds.\<close>

definition RemoveNewLineAndAddNullTerm :: "char list \<Rightarrow> fault + char list" where
  "RemoveNewLineAndAddNullTerm stringValue =
     (let ln = (word_of_nat (length (cstr stringValue)) :: 64 word) - 1
      in if MAX_COMMAND_LENGTH \<le> unat ln then Inl Out_of_bounds
         else if byte_at stringValue (unat ln) = NL then Inr (stringValue[unat ln := NUL])
         else Inr stringValue)"

record shell_state =
  statusNumber :: int
  errMsg :: string

text \<open>What \<^verbatim>\<open>fgets(userInput, 79, stdin)\<close> did: nothing stored (end of input), or the
  characters stored (at most 78, the newline included when one was read) and whether
  the end of input was met.\<close>

datatype stdin_read = Nothing_read | Line_read string bool

datatype effect = Print string | Chdir "string option" | Background bg_result | Foreground fg_result

datatype loop_step =
  Next_iteration shell_state "effect list"
| Shell_exits int "effect list"
| Memory_fault

text \<open>One pass through the body of the \<^verbatim>\<open>while\<close> loop of \<^verbatim>\<open>RunShellLoop\<close>, from the
  state of \<^verbatim>\<open>statusNumber\<close> and \<^verbatim>\<open>errMsg\<close> the pass starts with.\<close>

definition RunShellLoop_body :: "os \<Rightarrow> shell_state \<Rightarrow> stdin_read \<Rightarrow> loop_step" where
  "RunShellLoop_body w s input =
     (let userInput0 = (case input of Nothing_read \<Rightarrow> [] | Line_read l eof \<Rightarrow> l);
          feof = (case input of Nothing_read \<Rightarrow> True | Line_read l eof \<Rightarrow> eof)
      in case RemoveNewLineAndAddNullTerm userInput0 of
           Inl f \<Rightarrow> Memory_fault
         | Inr userInput \<Rightarrow>
             if feof then Shell_exits 0 [Print '': '']
             else if cstr userInput = [] then Next_iteration s [Print '': '']
             else if byte_at userInput 0 = CHR ''#'' then Next_iteration s [Print '': '']
             else if cstr userInput = ''exit'' then Shell_exits 0 [Print '': '']
             else if cstr userInput = ''cd'' then Next_iteration s [Print '': '', Chdir (home w)]
             else if byte_at userInput 0 = CHR ''c'' \<and> byte_at userInput 1 = CHR ''d''
                       \<and> byte_at userInput 2 = SP
             then (case ParseUserInputToArgs userInput (InitializeArgsArray (replicate MAX_ARGS None)) of
                     (uc, argArr) \<Rightarrow> Next_iteration s [Print '': '', Chdir (argArr ! 1)])
             else if cstr userInput = ''status''
             then Next_iteration \<lparr>statusNumber = 0, errMsg = []\<rparr>
                    [Print '': '',
                     Print (if errMsg s = [] then ''exit value '' @ show_int (statusNumber s) @ [NL]
                            else errMsg s @ [NL])]
             else let cleared = \<lparr>statusNumber = 0, errMsg = []\<rparr>
                  in if ContainsString userInput ''&'' \<noteq> 0
                     then (case RunBackGroundCommand w userInput of
                             Shell_exit n \<Rightarrow> Shell_exits n [Print '': '']
                           | Returns r \<Rightarrow> Next_iteration cleared [Print '': '', Background r])
                     else (case RunForeGroundCommand w userInput (errMsg cleared) of
                             Shell_exit n \<Rightarrow> Shell_exits n [Print '': '']
                           | Returns r \<Rightarrow>
                               Next_iteration \<lparr>statusNumber = fg_return r, errMsg = fg_errMsg r\<rparr>
                                 [Print '': '', Foreground r]))"

text \<open>The loop over the reads of a session: \<^verbatim>\<open>statusNumber\<close> and \<^verbatim>\<open>errMsg\<close> start as
  0 and the empty string.\<close>

fun RunShellLoop_from :: "shell_state \<Rightarrow> (os \<times> stdin_read) list \<Rightarrow> loop_step list" where
  "RunShellLoop_from s [] = []"
| "RunShellLoop_from s ((w, input) # rest) =
     (case RunShellLoop_body w s input of
        Next_iteration s' out \<Rightarrow> Next_iteration s' out # RunShellLoop_from s' rest
      | Shell_exits n out \<Rightarrow> [Shell_exits n out]
      | Memory_fault \<Rightarrow> [Memory_fault])"

definition RunShellLoop :: "(os \<times> stdin_read) list \<Rightarrow> loop_step list" where
  "RunShellLoop reads = RunShellLoop_from \<lparr>statusNumber = 0, errMsg = []\<rparr> reads"

section \<open>The space-split of a line\<close>

text \<open>The fields of a line are the runs of characters between single spaces; its
  tokens are the fields that are not empty.\<close>

fun fields :: "string \<Rightarrow> string list" where
  "fields [] = [[]]"
| "fields (c # cs) =
     (if c = SP then [] # fields cs
      else (case fields cs of [] \<Rightarrow> [[c]] | f # fs \<Rightarrow> (c # f) # fs))"

definition space_split :: "string \<Rightarrow> string list" where
  "space_split s = filter (\<lambda>w. w \<noteq> []) (fields s)"

definition no_marker :: "string \<Rightarrow> bool" where
  "no_marker t = (t \<noteq> ''>'' \<and> t \<noteq> ''<'' \<and> t \<noteq> ''&'')"

definition is_redirect :: "string \<Rightarrow> bool" where
  "is_redirect t = (t = ''<'' \<or> t = ''>'')"

text \<open>The tokens still to come when the current token is \<^verbatim>\<open>r\<close> and \<^verbatim>\<open>strtok\<close> is in
  state \<^verbatim>\<open>st\<close>.\<close>

definition remaining_tokens :: "string option \<Rightarrow> char list \<times> char list \<Rightarrow> string list" where
  "remaining_tokens r st = (case r of None \<Rightarrow> [] | Some t \<Rightarrow> t # space_split (cstr (snd st)))"

text \<open>The lines that \<^verbatim>\<open>RunShellLoop\<close> hands to a launcher: not empty, not a comment,
  and none of \<^verbatim>\<open>exit\<close>, \<^verbatim>\<open>cd\<close>, \<^verbatim>\<open>cd <path>\<close> and \<^verbatim>\<open>status\<close>.\<close>

definition is_external_command :: "char list \<Rightarrow> bool" where
  "is_external_command userInput =
     (cstr userInput \<noteq> [] \<and> byte_at userInput 0 \<noteq> CHR ''#'' \<and> cstr userInput \<noteq> ''exit''
      \<and> cstr userInput \<noteq> ''cd''
      \<and> \<not> (byte_at userInput 0 = CHR ''c'' \<and> byte_at userInput 1 = CHR ''d'' \<and> byte_at userInput 2 = SP)
      \<and> cstr userInput \<noteq> ''status'')"


text \<open>The notice of the spec for a reaped child.\<close>

fun notice :: "int \<Rightarrow> ending \<Rightarrow> string" where
  "notice childPid (Exited code) =
     ''background pid '' @ show_int childPid @ '' is done: exit value '' @ show_int (int code)"
| "notice childPid (Signaled n core) =
     ''background pid '' @ show_int childPid @ '' is done: terminated by signal '' @ show_int (int n)"

text \<open>A terminated child as the handler can meet it: a process id of at most nine
  digits, an exit code from 0 to 255 or a signal number from 1 to 126.\<close>

definition reapable :: "int \<times> ending \<Rightarrow> bool" where
  "reapable z =
     (0 < fst z \<and> fst z < 1000000000
      \<and> (case snd z of Exited code \<Rightarrow> code \<le> 255 | Signaled n core \<Rightarrow> 0 < n \<and> n < 127))"

text \<open>The block written for a child: a newline, the notice, a newline, and NUL
  bytes up to the 80 bytes of the message array.\<close>

definition notice_block :: "int \<times> ending \<Rightarrow> char list" where
  "notice_block z =
     [NL] @ notice (fst z) (snd z) @ [NL] @ replicate (78 - length (notice (fst z) (snd z))) NUL"

text \<open>The position of the last redirection marker among tokens numbered from \<^verbatim>\<open>n\<close>,
  \<^verbatim>\<open>p\<close> when there is none.\<close>

fun last_redirect :: "nat \<Rightarrow> nat \<Rightarrow> string list \<Rightarrow> nat" where
  "last_redirect n p [] = p"
| "last_redirect n p (t # ts) = last_redirect (Suc n) (if is_redirect t then n else p) ts"

section \<open>Tokens returned by strtok\<close>

lemma fields_unfold:
  "fields s = takeWhile (\<lambda>c. c \<noteq> SP) s #
     (case dropWhile (\<lambda>c. c \<noteq> SP) s of [] \<Rightarrow> [] | _ # r \<Rightarrow> fields r)"
  by (induction s) (auto split: list.splits)

lemma space_split_Nil [simp]: "space_split [] = []"
  by (simp add: space_split_def)

lemma space_split_SP [simp]: "space_split (SP # s) = space_split s"
  by (simp add: space_split_def)

lemma space_split_skip: "space_split (dropWhile (\<lambda>c. c = SP) s) = space_split s"
  by (induction s) auto

lemma dropWhile_Cons_D: "dropWhile P xs = y # ys \<Longrightarrow> \<not> P y"
  by (simp add: dropWhile_eq_Cons_conv)

lemma space_split_word:
  assumes "c \<noteq> SP"
  shows "space_split (c # s) =
           (c # takeWhile (\<lambda>c. c \<noteq> SP) s) # space_split (dropWhile (\<lambda>c. c \<noteq> SP) s)"
proof -
  define rest where "rest = (case dropWhile (\<lambda>c. c \<noteq> SP) s of [] \<Rightarrow> [] | _ # r \<Rightarrow> fields r)"
  have F: "fields (c # s) = (c # takeWhile (\<lambda>c. c \<noteq> SP) s) # rest"
    unfolding rest_def using assms by (subst fields_unfold) simp
  have G: "filter (\<lambda>w. w \<noteq> []) rest = space_split (dropWhile (\<lambda>c. c \<noteq> SP) s)"
  proof (cases "dropWhile (\<lambda>c. c \<noteq> SP) s")
    case Nil
    show ?thesis unfolding rest_def Nil by simp
  next
    case (Cons d r)
    then have "d = SP" using dropWhile_Cons_D by fastforce
    with Cons show ?thesis by (simp add: space_split_def rest_def)
  qed
  have "space_split (c # s) = filter (\<lambda>w. w \<noteq> []) (fields (c # s))"
    by (simp only: space_split_def)
  also have "\<dots> = (c # takeWhile (\<lambda>c. c \<noteq> SP) s) # filter (\<lambda>w. w \<noteq> []) rest"
    by (simp only: F) simp
  finally show ?thesis by (simp only: G)
qed

lemma cstr_dropWhile_SP: "cstr (dropWhile (\<lambda>c. c = SP) s) = dropWhile (\<lambda>c. c = SP) (cstr s)"
  by (induction s) auto

lemma cstr_drop: "n \<le> length (cstr s) \<Longrightarrow> cstr (drop n s) = drop n (cstr s)"
  by (induction s arbitrary: n) (auto simp: drop_Cons split: nat.splits if_splits)

lemma drop_length_takeWhile: "drop (length (takeWhile P xs)) xs = dropWhile P xs"
  by (induction xs) auto

lemma cstr_tl: "cstr s \<noteq> [] \<Longrightarrow> cstr (tl s) = tl (cstr s)"
  by (cases s) (auto split: if_splits)

text \<open>What a call of strtok returns, against the space-split of the rest of the line.\<close>

lemma strtok_from_split:
  assumes "strtok_from pre s = (r, b', s')"
  shows "space_split (cstr s) = (case r of None \<Rightarrow> [] | Some t \<Rightarrow> t # space_split (cstr s'))"
proof -
  define s1 where "s1 = dropWhile (\<lambda>c. c = SP) s"
  define tok where "tok = takeWhile (\<lambda>c. c \<noteq> SP) (cstr s1)"
  define e where "e = drop (length tok) s1"
  have c1: "cstr s1 = dropWhile (\<lambda>c. c = SP) (cstr s)"
    unfolding s1_def by (rule cstr_dropWhile_SP)
  have sp: "space_split (cstr s) = space_split (cstr s1)"
    unfolding c1 by (rule space_split_skip [symmetric])
  show ?thesis
  proof (cases "cstr s1 = []")
    case True
    with assms have "r = None"
      by (simp add: strtok_from_def Let_def s1_def [symmetric])
    with True sp show ?thesis by simp
  next
    case False
    then obtain c cs where ccs: "cstr s1 = c # cs" by (cases "cstr s1") auto
    have "c \<noteq> SP"
      using dropWhile_Cons_D [of "\<lambda>c. c = SP" "cstr s" c cs] ccs c1 by simp
    then have split: "space_split (cstr s1) = tok # space_split (dropWhile (\<lambda>c. c \<noteq> SP) (cstr s1))"
      unfolding tok_def ccs by (simp add: space_split_word)
    have "length tok \<le> length (cstr s1)"
      unfolding tok_def by (rule length_takeWhile_le)
    then have ce: "cstr e = dropWhile (\<lambda>c. c \<noteq> SP) (cstr s1)"
      unfolding e_def by (simp add: cstr_drop tok_def drop_length_takeWhile)
    from assms False have r: "r = Some tok" and s': "s' = (if cstr e = [] then e else tl e)"
      by (auto simp: strtok_from_def Let_def s1_def [symmetric] tok_def [symmetric] e_def [symmetric]
          split: if_splits)
    have "space_split (cstr s') = space_split (cstr e)"
    proof (cases "cstr e = []")
      case True
      with s' show ?thesis by simp
    next
      case False
      then obtain d ds where dds: "cstr e = d # ds" by (cases "cstr e") auto
      then have "d = SP" using dropWhile_Cons_D [of "\<lambda>c. c \<noteq> SP" "cstr s1" d ds] ce by simp
      moreover from False s' have "cstr s' = tl (cstr e)" by (simp add: cstr_tl)
      ultimately show ?thesis using dds by simp
    qed
    with r split sp ce show ?thesis by simp
  qed
qed

section \<open>The loop of ParseUserInputToArgs\<close>

lemma strtok_from_remaining:
  assumes "strtok_from (fst st) (snd st) = (r2, st2)"
  shows "space_split (cstr (snd st)) = remaining_tokens r2 st2"
  using strtok_from_split [of "fst st" "snd st" r2 "fst st2" "snd st2"] assms
  by (simp add: remaining_tokens_def)


lemma Parse_loop_None: "ParseUserInputToArgs_loop ho hi None st n arr = (st, n, arr)"
  by (simp add: ParseUserInputToArgs_loop.simps)

lemma Parse_loop_stop:
  "(ho = 1 \<and> t = ''>'') \<or> (hi = 1 \<and> t = ''<'') \<or> t = ''&'' \<Longrightarrow>
   ParseUserInputToArgs_loop ho hi (Some t) st n arr = (st, n, arr)"
  by (subst ParseUserInputToArgs_loop.simps) auto

lemma Parse_loop_step:
  "\<not> (ho = 1 \<and> t = ''>'') \<Longrightarrow> \<not> (hi = 1 \<and> t = ''<'') \<Longrightarrow> t \<noteq> ''&'' \<Longrightarrow>
   strtok_from (fst st) (snd st) = (r2, st2) \<Longrightarrow>
   ParseUserInputToArgs_loop ho hi (Some t) st n arr =
     (if n + 1 = MAX_ARGS - 1
      then (st2, n + 1, (arr[n := Some t])[MAX_ARGS - 1 := None])
      else ParseUserInputToArgs_loop ho hi r2 st2 (n + 1) (arr[n := Some t]))"
  by (subst ParseUserInputToArgs_loop.simps) auto

lemma Parse_loop_collect:
  assumes "ParseUserInputToArgs_loop ho hi r st n arr = (st', n', arr')"
    and "''>'' \<in> set (remaining_tokens r st) \<Longrightarrow> ho = 1"
    and "''<'' \<in> set (remaining_tokens r st) \<Longrightarrow> hi = 1"
    and "n < MAX_ARGS - 1" and "length arr = MAX_ARGS"
  shows "n' = n + length (take (MAX_ARGS - 1 - n) (takeWhile no_marker (remaining_tokens r st))) \<and>
         arr'[n' := None] =
           (take n arr @ map Some (take (MAX_ARGS - 1 - n) (takeWhile no_marker (remaining_tokens r st)))
             @ drop (n + length (take (MAX_ARGS - 1 - n) (takeWhile no_marker (remaining_tokens r st)))) arr)
           [n' := None]"
  using assms
proof (induction ho hi r st n arr arbitrary: st' n' arr' rule: ParseUserInputToArgs_loop.induct)
  case (1 ho hi r st n arr)
  show ?case
  proof (cases r)
    case None
    with "1.prems"(1) have "n' = n" "arr' = arr"
      by (simp_all add: Parse_loop_None)
    with None show ?thesis by (simp add: remaining_tokens_def)
  next
    case (Some t)
    have mem: "t \<in> set (remaining_tokens r st)" using Some by (simp add: remaining_tokens_def)
    show ?thesis
    proof (cases "no_marker t")
      case False
      then have stop: "(ho = 1 \<and> t = ''>'') \<or> (hi = 1 \<and> t = ''<'') \<or> t = ''&''"
        using "1.prems"(2,3) mem by (auto simp: no_marker_def)
      from "1.prems"(1) have "n' = n" "arr' = arr"
        unfolding Some Parse_loop_stop [OF stop] by simp_all
      moreover from False Some have "takeWhile no_marker (remaining_tokens r st) = []"
        by (simp add: remaining_tokens_def)
      ultimately show ?thesis by simp
    next
      case True
      then have go: "\<not> (ho = 1 \<and> t = ''>'')" "\<not> (hi = 1 \<and> t = ''<'')" "t \<noteq> ''&''"
        by (auto simp: no_marker_def)
      obtain r2 st2 where tk: "strtok_from (fst st) (snd st) = (r2, st2)"
        by (cases "strtok_from (fst st) (snd st)") auto
      have pend: "remaining_tokens r st = t # remaining_tokens r2 st2"
        using Some strtok_from_remaining [OF tk] by (simp add: remaining_tokens_def)
      have nlt: "n < length arr" using "1.prems"(4,5) by simp
      show ?thesis
      proof (cases "n + 1 = MAX_ARGS - 1")
        case cap: True
        from "1.prems"(1)
        have res: "n' = n + 1" "arr' = (arr[n := Some t])[MAX_ARGS - 1 := None]"
          unfolding Some Parse_loop_step [OF go tk] using cap by auto
        from cap have one: "MAX_ARGS - 1 - n = Suc 0" by simp
        have "arr[n := Some t] = take n arr @ [Some t] @ drop (Suc n) arr"
          using nlt by (simp add: upd_conv_take_nth_drop)
        with res cap pend True one show ?thesis by simp
      next
        case nocap: False
        from "1.prems"(1)
        have rec: "ParseUserInputToArgs_loop ho hi r2 st2 (n + 1) (arr[n := Some t]) = (st', n', arr')"
          unfolding Some Parse_loop_step [OF go tk] using nocap by simp
        from nocap "1.prems"(4) have lt: "n + 1 < MAX_ARGS - 1" by simp
        then obtain k where k: "MAX_ARGS - 1 - n = Suc k" "MAX_ARGS - 1 - (n + 1) = k"
          by (cases "MAX_ARGS - 1 - n") auto
        define ys where "ys = take k (takeWhile no_marker (remaining_tokens r2 st2))"
        have coll: "take (MAX_ARGS - 1 - n) (takeWhile no_marker (remaining_tokens r st)) = t # ys"
          using pend True k by (simp add: ys_def)
        have IH: "n' = n + 1 + length ys \<and>
              arr'[n' := None] =
                (take (n + 1) (arr[n := Some t]) @ map Some ys @ drop (n + 1 + length ys) (arr[n := Some t]))
                [n' := None]"
          unfolding ys_def k(2) [symmetric]
        proof (rule "1.IH" [OF Some go tk [symmetric] nocap rec])
          show "''>'' \<in> set (remaining_tokens r2 st2) \<Longrightarrow> ho = 1"
            using "1.prems"(2) pend by simp
          show "''<'' \<in> set (remaining_tokens r2 st2) \<Longrightarrow> hi = 1"
            using "1.prems"(3) pend by simp
          show "n + 1 < MAX_ARGS - 1" by (rule lt)
          show "length (arr[n := Some t]) = MAX_ARGS" using "1.prems"(5) by simp
        qed
        have "take (n + 1) (arr[n := Some t]) @ map Some ys @ drop (n + 1 + length ys) (arr[n := Some t])
            = take n arr @ map Some (t # ys) @ drop (n + length (t # ys)) arr"
          using nlt by (simp add: take_Suc_conv_app_nth)
        with IH show ?thesis unfolding coll by auto
      qed
    qed
  qed
qed

lemma strstr_single: "strstr s [c] = None \<longleftrightarrow> c \<notin> set s"
  by (induction s) auto

lemma ContainsString_single: "ContainsString b [c] = (if c \<in> set (cstr b) then 1 else 0)"
  by (simp add: ContainsString_def Let_def strstr_single)

lemma set_fields: "w \<in> set (fields s) \<Longrightarrow> set w \<subseteq> set s"
proof (induction s arbitrary: w)
  case Nil
  then show ?case by simp
next
  case (Cons c s)
  show ?case
  proof (cases "c = SP")
    case True
    with Cons show ?thesis by auto
  next
    case False
    obtain f fs where f: "fields s = f # fs" by (cases "fields s") (auto simp: fields_unfold)
    with False Cons.prems have "w = c # f \<or> w \<in> set fs" by simp
    then show ?thesis using Cons.IH [of f] Cons.IH [of w] f by auto
  qed
qed

lemma set_space_split: "w \<in> set (space_split s) \<Longrightarrow> set w \<subseteq> set s"
  by (auto simp: space_split_def dest: set_fields)

lemma marker_token_char: "[c] \<in> set (space_split s) \<Longrightarrow> c \<in> set s"
  using set_space_split by fastforce

lemma ParseUserInputToArgs_array:
  assumes "length returnArr = MAX_ARGS"
  shows "snd (ParseUserInputToArgs userCommand returnArr) =
           (map Some (take (MAX_ARGS - 1) (takeWhile no_marker (space_split (cstr userCommand))))
            @ drop (length (take (MAX_ARGS - 1) (takeWhile no_marker (space_split (cstr userCommand))))) returnArr)
           [length (take (MAX_ARGS - 1) (takeWhile no_marker (space_split (cstr userCommand)))) := None]"
proof -
  obtain r st where tk: "strtok_from [] userCommand = (r, st)"
    by (cases "strtok_from [] userCommand") auto
  have toks: "space_split (cstr userCommand) = remaining_tokens r st"
    using strtok_from_split [of "[]" userCommand r "fst st" "snd st"] tk
    by (simp add: remaining_tokens_def)
  obtain st' n' arr' where lp:
    "ParseUserInputToArgs_loop (ContainsString userCommand ''>'') (ContainsString userCommand ''<'') r st 0 returnArr
       = (st', n', arr')"
    using prod_cases3 by blast
  have "n' = 0 + length (take (MAX_ARGS - 1 - 0) (takeWhile no_marker (remaining_tokens r st))) \<and>
         arr'[n' := None] =
           (take 0 returnArr @ map Some (take (MAX_ARGS - 1 - 0) (takeWhile no_marker (remaining_tokens r st)))
             @ drop (0 + length (take (MAX_ARGS - 1 - 0) (takeWhile no_marker (remaining_tokens r st)))) returnArr)
           [n' := None]"
  proof (rule Parse_loop_collect [OF lp])
    show "''>'' \<in> set (remaining_tokens r st) \<Longrightarrow> ContainsString userCommand ''>'' = 1"
      unfolding toks [symmetric] by (simp add: ContainsString_single marker_token_char)
    show "''<'' \<in> set (remaining_tokens r st) \<Longrightarrow> ContainsString userCommand ''<'' = 1"
      unfolding toks [symmetric] by (simp add: ContainsString_single marker_token_char)
    show "0 < MAX_ARGS - 1" by (simp add: MAX_ARGS_def)
    show "length returnArr = MAX_ARGS" by (rule assms)
  qed
  then have "arr'[n' := None] =
       (map Some (take (MAX_ARGS - 1) (takeWhile no_marker (space_split (cstr userCommand))))
            @ drop (length (take (MAX_ARGS - 1) (takeWhile no_marker (space_split (cstr userCommand))))) returnArr)
           [length (take (MAX_ARGS - 1) (takeWhile no_marker (space_split (cstr userCommand)))) := None]"
    unfolding toks by auto
  moreover have "snd (ParseUserInputToArgs userCommand returnArr) = arr'[n' := None]"
    by (simp add: ParseUserInputToArgs_def Let_def tk lp)
  ultimately show ?thesis by simp
qed

lemma argv_seq_filled:
  assumes "length ys < length arr"
  shows "argv_seq ((map Some ys @ drop (length ys) arr)[length ys := None]) = ys"
proof -
  from assms obtain z zs where d: "drop (length ys) arr = z # zs"
    by (cases "drop (length ys) arr") auto
  have "(map Some ys @ drop (length ys) arr)[length ys := None] = map Some ys @ None # zs"
    by (simp add: d list_update_append)
  moreover have "takeWhile (\<lambda>a. a \<noteq> None) (map Some ys @ None # zs) = map Some ys"
    by (induction ys) auto
  ultimately show ?thesis by (simp add: argv_seq_def comp_def)
qed

lemma foldl_update_range:
  "n \<le> length xs \<Longrightarrow> foldl (\<lambda>a i. a[i := v]) xs [0..<n] = replicate n v @ drop n xs"
proof (induction n)
  case 0
  then show ?case by simp
next
  case (Suc n)
  then have "n < length xs" by simp
  then have "(replicate n v @ drop n xs)[n := v] = replicate n v @ v # drop (Suc n) xs"
    by (simp add: list_update_append upd_conv_take_nth_drop)
  with Suc show ?case by (simp add: replicate_app_Cons_same)
qed

lemma InitializeArgsArray_eq:
  "length argv = MAX_ARGS \<Longrightarrow> InitializeArgsArray argv = replicate MAX_ARGS None"
  by (simp add: InitializeArgsArray_def foldl_update_range)

lemma set_filled_array:
  "set ((map Some ys @ drop (length ys) (replicate n None))[length ys := None]) \<subseteq> insert None (Some ` set ys)"
proof -
  have "set ((map Some ys @ drop (length ys) (replicate n None))[length ys := None])
      \<subseteq> insert None (set (map Some ys @ drop (length ys) (replicate n None)))"
    by (rule set_update_subset_insert)
  also have "\<dots> \<subseteq> insert None (Some ` set ys)" by auto
  finally show ?thesis .
qed

lemma collected_no_marker:
  "t \<in> set (take n (takeWhile no_marker ts)) \<Longrightarrow> no_marker t"
  by (meson in_set_takeD set_takeWhileD)

lemma ParseUserInputToArgs_slots:
  assumes "length argv = MAX_ARGS" and "Some t \<in> set (snd (ParseUserInputToArgs userCommand (InitializeArgsArray argv)))"
  shows "no_marker t"
proof -
  let ?coll = "take (MAX_ARGS - 1) (takeWhile no_marker (space_split (cstr userCommand)))"
  have "snd (ParseUserInputToArgs userCommand (InitializeArgsArray argv)) =
     (map Some ?coll @ drop (length ?coll) (replicate MAX_ARGS None))[length ?coll := None]"
    using ParseUserInputToArgs_array [of "replicate MAX_ARGS None" userCommand] assms(1)
    by (simp add: InitializeArgsArray_eq)
  with assms(2) have "Some t \<in> insert None (Some ` set ?coll)"
    using set_filled_array [of ?coll MAX_ARGS] by auto
  then have "t \<in> set ?coll" by auto
  then show ?thesis by (rule collected_no_marker)
qed

section \<open>The loop of GetFileName\<close>

lemma GetFileName_loop_None: "GetFileName_loop None st n p arr = (st, n, p, arr)"
  by (simp add: GetFileName_loop.simps)

lemma GetFileName_loop_step:
  "strtok_from (fst st) (snd st) = (r2, st2) \<Longrightarrow>
   GetFileName_loop (Some t) st n p arr =
     (if n + 1 = MAX_ARGS - 1
      then (st2, n + 1, (if t = ''<'' \<or> t = ''>'' then n else p), (arr[n := Some t])[MAX_ARGS - 1 := None])
      else GetFileName_loop r2 st2 (n + 1) (if t = ''<'' \<or> t = ''>'' then n else p) (arr[n := Some t]))"
  by (subst GetFileName_loop.simps) simp

lemma GetFileName_loop_collect:
  assumes "GetFileName_loop r st n p arr = (st', n', p', arr')"
    and "n < MAX_ARGS - 1" and "length arr = MAX_ARGS" and "arr ! (MAX_ARGS - 1) = None"
  shows "n' = n + length (take (MAX_ARGS - 1 - n) (remaining_tokens r st)) \<and>
         p' = last_redirect n p (take (MAX_ARGS - 1 - n) (remaining_tokens r st)) \<and>
         arr' = take n arr @ map Some (take (MAX_ARGS - 1 - n) (remaining_tokens r st))
             @ drop (n + length (take (MAX_ARGS - 1 - n) (remaining_tokens r st))) arr"
  using assms
proof (induction r st n p arr arbitrary: st' n' p' arr' rule: GetFileName_loop.induct)
  case (1 r st n p arr)
  show ?case
  proof (cases r)
    case None
    with "1.prems"(1) have "n' = n" "p' = p" "arr' = arr"
      by (simp_all add: GetFileName_loop_None)
    with None show ?thesis by (simp add: remaining_tokens_def)
  next
    case (Some t)
    obtain r2 st2 where tk: "strtok_from (fst st) (snd st) = (r2, st2)"
      by (cases "strtok_from (fst st) (snd st)") auto
    have pend: "remaining_tokens r st = t # remaining_tokens r2 st2"
      using Some strtok_from_remaining [OF tk] by (simp add: remaining_tokens_def)
    have nlt: "n < length arr" using "1.prems"(2,3) by simp
    have upd: "arr[n := Some t] = take n arr @ [Some t] @ drop (Suc n) arr"
      using nlt by (simp add: upd_conv_take_nth_drop)
    define q where "q = (if t = ''<'' \<or> t = ''>'' then n else p)"
    have q: "q = (if is_redirect t then n else p)" by (simp add: q_def is_redirect_def)
    show ?thesis
    proof (cases "n + 1 = MAX_ARGS - 1")
      case cap: True
      from "1.prems"(1)
      have res: "n' = n + 1" "p' = q" "arr' = (arr[n := Some t])[MAX_ARGS - 1 := None]"
        unfolding Some GetFileName_loop_step [OF tk] q_def using cap by auto
      from cap have one: "MAX_ARGS - 1 - n = Suc 0" by simp
      have "(arr[n := Some t]) ! (MAX_ARGS - 1) = None"
        using "1.prems"(2,4) by simp
      then have "(arr[n := Some t])[MAX_ARGS - 1 := None] = arr[n := Some t]"
        by (metis list_update_id)
      with res upd pend one q show ?thesis by simp
    next
      case nocap: False
      from "1.prems"(1)
      have rec: "GetFileName_loop r2 st2 (n + 1) q (arr[n := Some t]) = (st', n', p', arr')"
        unfolding Some GetFileName_loop_step [OF tk] q_def using nocap by simp
      from nocap "1.prems"(2) have lt: "n + 1 < MAX_ARGS - 1" by simp
      then obtain k where k: "MAX_ARGS - 1 - n = Suc k" "MAX_ARGS - 1 - (n + 1) = k"
        by (cases "MAX_ARGS - 1 - n") auto
      define ys where "ys = take k (remaining_tokens r2 st2)"
      have coll: "take (MAX_ARGS - 1 - n) (remaining_tokens r st) = t # ys"
        using pend k by (simp add: ys_def)
      have IH: "n' = n + 1 + length ys \<and> p' = last_redirect (n + 1) q ys \<and>
              arr' = take (n + 1) (arr[n := Some t]) @ map Some ys @ drop (n + 1 + length ys) (arr[n := Some t])"
        unfolding ys_def k(2) [symmetric] q_def
      proof (rule "1.IH" [OF Some tk [symmetric] nocap rec [unfolded q_def]])
        show "n + 1 < MAX_ARGS - 1" by (rule lt)
        show "length (arr[n := Some t]) = MAX_ARGS" using "1.prems"(3) by simp
        show "(arr[n := Some t]) ! (MAX_ARGS - 1) = None" using "1.prems"(2,4) by simp
      qed
      have "take (n + 1) (arr[n := Some t]) @ map Some ys @ drop (n + 1 + length ys) (arr[n := Some t])
            = take n arr @ map Some (t # ys) @ drop (n + length (t # ys)) arr"
        using nlt by (simp add: take_Suc_conv_app_nth)
      with IH show ?thesis unfolding coll using q by auto
    qed
  qed
qed

lemma last_redirect_range:
  "last_redirect n p ts = p \<or> (n \<le> last_redirect n p ts \<and> last_redirect n p ts < n + length ts)"
proof (induction ts arbitrary: n p)
  case Nil
  then show ?case by simp
next
  case (Cons t ts)
  from Cons [of "Suc n" "if is_redirect t then n else p"] show ?case by auto
qed

lemma last_redirect_none:
  "list_all (\<lambda>t. \<not> is_redirect t) ts \<Longrightarrow> last_redirect n p ts = p"
  by (induction ts arbitrary: n p) auto

lemma last_redirect_last:
  "is_redirect m \<Longrightarrow> list_all (\<lambda>t. \<not> is_redirect t) post \<Longrightarrow>
   last_redirect n p (front @ m # post) = n + length front"
  by (induction front arbitrary: n p) (auto simp: last_redirect_none)

lemma GetFileName_result:
  "snd (GetFileName userCommand returnValue) =
     (if CHR ''<'' \<notin> set (cstr userCommand) \<and> CHR ''>'' \<notin> set (cstr userCommand) then returnValue
      else if last_redirect 0 0 (take (MAX_ARGS - 1) (space_split (cstr userCommand))) + 1
                < length (take (MAX_ARGS - 1) (space_split (cstr userCommand)))
      then strncpy (take (MAX_ARGS - 1) (space_split (cstr userCommand)) !
                     (last_redirect 0 0 (take (MAX_ARGS - 1) (space_split (cstr userCommand))) + 1))
             MAX_COMMAND_LENGTH
      else returnValue)"
proof (cases "CHR ''<'' \<notin> set (cstr userCommand) \<and> CHR ''>'' \<notin> set (cstr userCommand)")
  case True
  then show ?thesis by (simp add: GetFileName_def ContainsString_single)
next
  case False
  define toks where "toks = take (MAX_ARGS - 1) (space_split (cstr userCommand))"
  define pos where "pos = last_redirect 0 0 toks"
  obtain r st where tk: "strtok_from [] userCommand = (r, st)"
    by (cases "strtok_from [] userCommand") auto
  have sp: "space_split (cstr userCommand) = remaining_tokens r st"
    using strtok_from_split [of "[]" userCommand r "fst st" "snd st"] tk
    by (simp add: remaining_tokens_def)
  obtain st' n' p' arr' where lp:
    "GetFileName_loop r st 0 0 (replicate MAX_ARGS None) = (st', n', p', arr')"
    using prod_cases4 by blast
  have "n' = 0 + length (take (MAX_ARGS - 1 - 0) (remaining_tokens r st)) \<and>
         p' = last_redirect 0 0 (take (MAX_ARGS - 1 - 0) (remaining_tokens r st)) \<and>
         arr' = take 0 (replicate MAX_ARGS None) @ map Some (take (MAX_ARGS - 1 - 0) (remaining_tokens r st))
             @ drop (0 + length (take (MAX_ARGS - 1 - 0) (remaining_tokens r st))) (replicate MAX_ARGS None)"
    by (rule GetFileName_loop_collect [OF lp]) (simp_all add: MAX_ARGS_def)
  then have p': "p' = pos" and arr': "arr' = map Some toks @ replicate (MAX_ARGS - length toks) None"
    by (simp_all add: sp toks_def pos_def)
  have len: "length toks \<le> MAX_ARGS - 1" by (simp add: toks_def)
  have "pos = 0 \<or> pos < length toks"
    using last_redirect_range [of 0 0 toks] by (auto simp: pos_def)
  with len have bound: "pos + 1 < MAX_ARGS" by (auto simp: MAX_ARGS_def)
  have nth: "arr' ! (pos + 1) = (if pos + 1 < length toks then Some (toks ! (pos + 1)) else None)"
    using bound by (auto simp: arr' nth_append)
  have "snd (GetFileName userCommand returnValue) =
          (case arr' ! (p' + 1) of None \<Rightarrow> returnValue | Some t \<Rightarrow> strncpy t MAX_COMMAND_LENGTH)"
    using False by (auto simp: GetFileName_def ContainsString_single tk lp InitializeArgsArray_eq)
  then show ?thesis
    using False unfolding p' nth toks_def [symmetric] pos_def [symmetric] by auto
qed

section \<open>The buffer after strtok\<close>

lemma cstr_append: "cstr (xs @ ys) = (if NUL \<in> set xs then cstr xs else xs @ cstr ys)"
  by (induction xs) auto

lemma cstr_no_NUL [simp]: "NUL \<notin> set (cstr b)"
  by (induction b) auto

lemma takeWhile_SP_cstr: "takeWhile (\<lambda>c. c = SP) (cstr b) = takeWhile (\<lambda>c. c = SP) b"
  by (induction b) auto

lemma strtok_from_keeps:
  assumes "NUL \<in> set pre \<or> cstr s = []" and "strtok_from pre s = (r, pre2, s2)"
  shows "(NUL \<in> set pre2 \<or> cstr s2 = []) \<and> cstr (pre2 @ s2) = cstr (pre @ s)"
proof (cases "NUL \<in> set pre")
  case True
  from assms(2) obtain x where "pre2 = pre @ x"
    by (auto simp: strtok_from_def Let_def split: if_splits)
  with True show ?thesis by (simp add: cstr_append)
next
  case False
  with assms(1) have e: "cstr s = []" by simp
  then have "s = [] \<or> hd s = NUL" by (simp add: cstr_eq_Nil_iff)
  then have "dropWhile (\<lambda>c. c = SP) s = s" "takeWhile (\<lambda>c. c = SP) s = []"
    by (cases s; auto)+
  with assms(2) e have "pre2 = pre" "s2 = s"
    by (simp_all add: strtok_from_def Let_def)
  with e show ?thesis by simp
qed

lemma strtok_from_first:
  assumes "strtok_from [] b = (Some t, pre, s)"
  shows "(NUL \<in> set pre \<or> cstr s = []) \<and> cstr (pre @ s) = takeWhile (\<lambda>c. c = SP) (cstr b) @ t"
proof -
  define sp where "sp = takeWhile (\<lambda>c. c = SP) b"
  define s1 where "s1 = dropWhile (\<lambda>c. c = SP) b"
  define tok where "tok = takeWhile (\<lambda>c. c \<noteq> SP) (cstr s1)"
  define e where "e = drop (length tok) s1"
  have nsp: "NUL \<notin> set sp" unfolding sp_def by (induction b) auto
  have ntok: "NUL \<notin> set tok" unfolding tok_def using cstr_no_NUL [of s1]
    by (meson set_takeWhileD)
  from assms have t: "t = tok" and ps: "(pre = sp @ tok \<and> s = e \<and> cstr e = []) \<or> (pre = sp @ tok @ [NUL])"
    by (auto simp: strtok_from_def Let_def sp_def [symmetric] s1_def [symmetric] tok_def [symmetric]
        e_def [symmetric] split: if_splits)
  from ps show ?thesis
  proof
    assume "pre = sp @ tok \<and> s = e \<and> cstr e = []"
    then show ?thesis using nsp ntok t
      by (simp add: cstr_append sp_def takeWhile_SP_cstr)
  next
    assume "pre = sp @ tok @ [NUL]"
    then show ?thesis using nsp ntok t
      by (simp add: cstr_append sp_def takeWhile_SP_cstr)
  qed
qed

lemma GetFileName_loop_keeps:
  assumes "GetFileName_loop r st n p arr = (st', n', p', arr')"
    and "NUL \<in> set (fst st) \<or> cstr (snd st) = []"
  shows "cstr (fst st' @ snd st') = cstr (fst st @ snd st)"
  using assms
proof (induction r st n p arr arbitrary: st' n' p' arr' rule: GetFileName_loop.induct)
  case (1 r st n p arr)
  show ?case
  proof (cases r)
    case None
    with "1.prems"(1) show ?thesis by (simp add: GetFileName_loop_None)
  next
    case (Some t)
    obtain r2 st2 where tk: "strtok_from (fst st) (snd st) = (r2, st2)"
      by (cases "strtok_from (fst st) (snd st)") auto
    have keep: "(NUL \<in> set (fst st2) \<or> cstr (snd st2) = []) \<and> cstr (fst st2 @ snd st2) = cstr (fst st @ snd st)"
      using strtok_from_keeps [OF "1.prems"(2), of r2 "fst st2" "snd st2"] tk by simp
    show ?thesis
    proof (cases "n + 1 = MAX_ARGS - 1")
      case True
      from "1.prems"(1) have "st' = st2"
        unfolding Some GetFileName_loop_step [OF tk] using True by simp
      with keep show ?thesis by simp
    next
      case False
      from "1.prems"(1)
      have rec: "GetFileName_loop r2 st2 (n + 1) (if t = ''<'' \<or> t = ''>'' then n else p) (arr[n := Some t])
                   = (st', n', p', arr')"
        unfolding Some GetFileName_loop_step [OF tk] using False by simp
      have "cstr (fst st' @ snd st') = cstr (fst st2 @ snd st2)"
        using "1.IH" [OF Some tk [symmetric] False rec] keep by simp
      with keep show ?thesis by simp
    qed
  qed
qed

lemma space_split_eq_Nil: "space_split s = [] \<longleftrightarrow> set s \<subseteq> {SP}"
proof (induction s)
  case Nil
  then show ?case by simp
next
  case (Cons c s)
  then show ?case by (cases "c = SP") (auto simp: space_split_word)
qed

lemma GetFileName_buffer:
  "cstr (fst (GetFileName userCommand returnValue)) =
     (if CHR ''<'' \<notin> set (cstr userCommand) \<and> CHR ''>'' \<notin> set (cstr userCommand) then cstr userCommand
      else takeWhile (\<lambda>c. c = SP) (cstr userCommand) @ hd (space_split (cstr userCommand)))"
proof (cases "CHR ''<'' \<notin> set (cstr userCommand) \<and> CHR ''>'' \<notin> set (cstr userCommand)")
  case True
  then show ?thesis by (simp add: GetFileName_def ContainsString_single)
next
  case False
  then have "\<not> set (cstr userCommand) \<subseteq> {SP}" by auto
  then have ne: "space_split (cstr userCommand) \<noteq> []" by (simp add: space_split_eq_Nil)
  obtain r st where tk: "strtok_from [] userCommand = (r, st)"
    by (cases "strtok_from [] userCommand") auto
  have sp: "space_split (cstr userCommand) = remaining_tokens r st"
    using strtok_from_split [of "[]" userCommand r "fst st" "snd st"] tk
    by (simp add: remaining_tokens_def)
  with ne obtain t where r: "r = Some t" and hd: "hd (space_split (cstr userCommand)) = t"
    by (cases r) (auto simp: remaining_tokens_def)
  have first: "(NUL \<in> set (fst st) \<or> cstr (snd st) = []) \<and>
      cstr (fst st @ snd st) = takeWhile (\<lambda>c. c = SP) (cstr userCommand) @ t"
    using strtok_from_first [of userCommand t "fst st" "snd st"] tk r by simp
  obtain st' n' p' arr' where lp:
    "GetFileName_loop r st 0 0 (InitializeArgsArray (replicate MAX_ARGS None)) = (st', n', p', arr')"
    using prod_cases4 by blast
  have "cstr (fst st' @ snd st') = cstr (fst st @ snd st)"
    using GetFileName_loop_keeps [OF lp] first by simp
  moreover have "fst (GetFileName userCommand returnValue) = fst st' @ snd st'"
    using False by (auto simp: GetFileName_def ContainsString_single tk lp)
  ultimately show ?thesis using False first hd by auto
qed

lemma fields_no_SP: "w \<in> set (fields s) \<Longrightarrow> SP \<notin> set w"
proof (induction s arbitrary: w)
  case Nil
  then show ?case by simp
next
  case (Cons c s)
  show ?case
  proof (cases "c = SP")
    case True
    with Cons show ?thesis by auto
  next
    case False
    obtain f fs where f: "fields s = f # fs" by (cases "fields s") (auto simp: fields_unfold)
    with False Cons.prems have "w = c # f \<or> w \<in> set fs" by simp
    then show ?thesis using Cons.IH [of f] Cons.IH [of w] f False by auto
  qed
qed

lemma token_shape: "t \<in> set (space_split s) \<Longrightarrow> t \<noteq> [] \<and> SP \<notin> set t"
  by (auto simp: space_split_def dest: fields_no_SP)

lemma space_split_spaces: "space_split (takeWhile (\<lambda>c. c = SP) x @ u) = space_split u"
  by (induction x) auto

lemma space_split_one: "t \<noteq> [] \<Longrightarrow> SP \<notin> set t \<Longrightarrow> space_split t = [t]"
proof -
  assume "t \<noteq> []" and n: "SP \<notin> set t"
  then obtain c cs where t: "t = c # cs" by (cases t) auto
  with n have c: "c \<noteq> SP" and tw: "takeWhile (\<lambda>c. c \<noteq> SP) cs = cs"
    and dw: "dropWhile (\<lambda>c. c \<noteq> SP) cs = []"
    by (auto simp: takeWhile_eq_all_conv)
  show ?thesis unfolding t space_split_word [OF c] tw dw by simp
qed

text \<open>The buffer as GetFileName leaves it, once it has scanned: one token.\<close>

lemma GetFileName_leaves_one_token:
  assumes "CHR ''<'' \<in> set (cstr userCommand) \<or> CHR ''>'' \<in> set (cstr userCommand)"
  shows "space_split (cstr (fst (GetFileName userCommand returnValue))) = [hd (space_split (cstr userCommand))]"
proof -
  from assms have "\<not> set (cstr userCommand) \<subseteq> {SP}" by auto
  then have ne: "space_split (cstr userCommand) \<noteq> []" by (simp add: space_split_eq_Nil)
  then have "hd (space_split (cstr userCommand)) \<in> set (space_split (cstr userCommand))" by simp
  then have "hd (space_split (cstr userCommand)) \<noteq> [] \<and> SP \<notin> set (hd (space_split (cstr userCommand)))"
    by (rule token_shape)
  then show ?thesis using assms
    by (auto simp: GetFileName_buffer space_split_spaces space_split_one)
qed

lemma GetFileName_again:
  assumes "CHR ''<'' \<in> set (cstr userCommand) \<or> CHR ''>'' \<in> set (cstr userCommand)"
  shows "snd (GetFileName (fst (GetFileName userCommand returnValue)) f) = f"
  unfolding GetFileName_result [of "fst (GetFileName userCommand returnValue)"]
    GetFileName_leaves_one_token [OF assms]
  by (simp add: MAX_ARGS_def)

lemma length_fields: "w \<in> set (fields s) \<Longrightarrow> length w \<le> length s"
proof (induction s arbitrary: w)
  case Nil
  then show ?case by simp
next
  case (Cons c s)
  show ?case
  proof (cases "c = SP")
    case True
    with Cons.prems have "w = [] \<or> w \<in> set (fields s)" by simp
    then show ?thesis using Cons.IH [of w] by auto
  next
    case False
    obtain f fs where f: "fields s = f # fs" by (cases "fields s") (auto simp: fields_unfold)
    with False Cons.prems have "w = c # f \<or> w \<in> set fs" by simp
    then show ?thesis using Cons.IH [of f] Cons.IH [of w] f by auto
  qed
qed

lemma length_token: "t \<in> set (space_split s) \<Longrightarrow> length t \<le> length s"
  by (auto simp: space_split_def dest: length_fields)

lemma strncpy_token:
  "t \<in> set (space_split (cstr b)) \<Longrightarrow> length (cstr b) < MAX_COMMAND_LENGTH \<Longrightarrow>
   strncpy t MAX_COMMAND_LENGTH = t"
  using length_token [of t "cstr b"] by (simp add: strncpy_def)

lemma GetFileName_first_scan:
  assumes toks: "space_split (cstr userCommand) = front @ m # post"
    and m: "is_redirect m" and post: "list_all (\<lambda>t. \<not> is_redirect t) post"
    and cap: "length (space_split (cstr userCommand)) \<le> 512"
    and fits: "length (cstr userCommand) < MAX_COMMAND_LENGTH"
  shows "snd (GetFileName userCommand returnValue) = (case post of [] \<Rightarrow> returnValue | f # _ \<Rightarrow> f)"
proof -
  have t512: "take (MAX_ARGS - 1) (space_split (cstr userCommand)) = front @ m # post"
    using cap toks by (simp add: MAX_ARGS_def)
  have pos: "last_redirect 0 0 (front @ m # post) = length front"
    using last_redirect_last [OF m post, of 0 0 front] by simp
  have "m \<in> set (space_split (cstr userCommand))" by (simp add: toks)
  moreover from m have "m = [CHR ''<''] \<or> m = [CHR ''>'']" by (simp add: is_redirect_def)
  ultimately have ch: "CHR ''<'' \<in> set (cstr userCommand) \<or> CHR ''>'' \<in> set (cstr userCommand)"
    using marker_token_char by metis
  show ?thesis
  proof (cases post)
    case Nil
    with ch show ?thesis unfolding GetFileName_result t512 pos by auto
  next
    case (Cons f fs)
    then have "f \<in> set (space_split (cstr userCommand))" by (simp add: toks)
    then have "strncpy f MAX_COMMAND_LENGTH = f" using fits by (rule strncpy_token)
    with ch Cons show ?thesis unfolding GetFileName_result t512 pos by (auto simp: nth_append)
  qed
qed

lemma cstr_id: "NUL \<notin> set s \<Longrightarrow> cstr s = s"
  by (induction s) auto

lemma space_split_xs:
  "space_split (concat (replicate n ''x '') @ s) = replicate n ''x'' @ space_split s"
  by (induction n) (simp_all add: space_split_word)

lemma parsed_argument_sequence:
  assumes "length returnArr = MAX_ARGS"
  shows "argv_seq (snd (ParseUserInputToArgs userCommand returnArr)) =
           take 512 (takeWhile no_marker (space_split (cstr userCommand)))"
proof -
  let ?coll = "take (MAX_ARGS - 1) (takeWhile no_marker (space_split (cstr userCommand)))"
  have "length ?coll < length returnArr"
    using assms by (simp add: MAX_ARGS_def)
  then have "argv_seq (snd (ParseUserInputToArgs userCommand returnArr)) = ?coll"
    unfolding ParseUserInputToArgs_array [OF assms] by (rule argv_seq_filled)
  then show ?thesis by (simp add: MAX_ARGS_def)
qed

text \<open>The slot \<^verbatim>\<open>argv[0]\<close>, the name that \<^verbatim>\<open>execvp\<close> is given.\<close>

lemma argv_seq_hd: "argv_seq argv = a # as \<Longrightarrow> argv ! 0 = Some a"
  by (cases argv) (auto simp: argv_seq_def split: if_splits)

lemma argv_seq_Nil: "argv_seq argv = [] \<Longrightarrow> argv \<noteq> [] \<Longrightarrow> argv ! 0 = None"
  by (cases argv) (auto simp: argv_seq_def split: if_splits)

lemma length_ParseUserInputToArgs:
  "length returnArr = MAX_ARGS \<Longrightarrow> length (snd (ParseUserInputToArgs userCommand returnArr)) = MAX_ARGS"
  by (simp add: ParseUserInputToArgs_array MAX_ARGS_def)

lemma parsed_program_name:
  assumes "space_split (cstr userCommand) = name # rest" and "no_marker name"
  shows "snd (ParseUserInputToArgs userCommand (InitializeArgsArray (replicate MAX_ARGS None))) ! 0 = Some name"
proof -
  have "argv_seq (snd (ParseUserInputToArgs userCommand (InitializeArgsArray (replicate MAX_ARGS None))))
      = take 512 (takeWhile no_marker (space_split (cstr userCommand)))"
    by (rule parsed_argument_sequence) (simp add: InitializeArgsArray_eq)
  also have "\<dots> = name # take 511 (takeWhile no_marker rest)"
    using assms by simp
  finally show ?thesis by (rule argv_seq_hd)
qed

lemma parsed_no_program:
  assumes "takeWhile no_marker (space_split (cstr userCommand)) = []"
  shows "snd (ParseUserInputToArgs userCommand (InitializeArgsArray (replicate MAX_ARGS None))) ! 0 = None"
proof -
  have "argv_seq (snd (ParseUserInputToArgs userCommand (InitializeArgsArray (replicate MAX_ARGS None))))
      = take 512 (takeWhile no_marker (space_split (cstr userCommand)))"
    by (rule parsed_argument_sequence) (simp add: InitializeArgsArray_eq)
  with assms have "argv_seq (snd (ParseUserInputToArgs userCommand (InitializeArgsArray (replicate MAX_ARGS None)))) = []"
    by simp
  moreover have "length (snd (ParseUserInputToArgs userCommand (InitializeArgsArray (replicate MAX_ARGS None)))) = MAX_ARGS"
    by (rule length_ParseUserInputToArgs) (simp add: InitializeArgsArray_eq)
  ultimately show ?thesis by (intro argv_seq_Nil) (auto simp: MAX_ARGS_def)
qed

text \<open>The first token of the line is still the first token of the buffer that
  \<^verbatim>\<open>GetFileName\<close> leaves.\<close>

lemma GetFileName_keeps_first_token:
  assumes "space_split (cstr userCommand) = name # rest"
  shows "\<exists>rest'. space_split (cstr (fst (GetFileName userCommand returnValue))) = name # rest'"
proof (cases "CHR ''<'' \<in> set (cstr userCommand) \<or> CHR ''>'' \<in> set (cstr userCommand)")
  case True
  from GetFileName_leaves_one_token [OF True, of returnValue] assms show ?thesis by simp
next
  case False
  then show ?thesis using assms by (simp add: GetFileName_buffer)
qed

section \<open>The launchers\<close>

lemma os_open_os [simp]:
  "os_open (w\<lparr>execvp_ok := x\<rparr>) = os_open w"
  "os_open (w\<lparr>program_end := y\<rparr>) = os_open w"
  "os_open (w\<lparr>fork_pid := z\<rparr>) = os_open w"
  "os_open (w\<lparr>waitpid_ok := x\<rparr>) = os_open w"
  by (simp_all add: os_open_def fun_eq_iff)

lemma fg_redirects_os [simp]:
  "fg_redirects (w\<lparr>execvp_ok := x\<rparr>) = fg_redirects w"
  "fg_redirects (w\<lparr>program_end := y\<rparr>) = fg_redirects w"
  "fg_redirects (w\<lparr>fork_pid := z\<rparr>) = fg_redirects w"
  "fg_redirects (w\<lparr>waitpid_ok := x\<rparr>) = fg_redirects w"
  by (simp_all add: fg_redirects_def fun_eq_iff split: prod.splits)

lemma RunForeGroundCommand_fork_fails:
  "fork_pid w = - 1 \<Longrightarrow> RunForeGroundCommand w userCommand em = Shell_exit 1"
  by (simp add: RunForeGroundCommand_def Let_def split: prod.splits)

lemma RunBackGroundCommand_fork_fails:
  "fork_pid w = - 1 \<Longrightarrow> RunBackGroundCommand w userCommand = Shell_exit 1"
  by (simp add: RunBackGroundCommand_def Let_def split: prod.splits)

text \<open>What a launcher returns when the process was spawned, in terms of its parts.\<close>

lemma RunForeGroundCommand_spawned:
  assumes "fork_pid w \<noteq> - 1"
    and "fg_redirects w userCommand (ContainsString userCommand ''>'') (ContainsString userCommand ''<'')
           = (uc2, fileName, d, opened)"
  shows "RunForeGroundCommand w userCommand em =
     Returns \<lparr>fg_return = fst (fg_parent_code (if waitpid_ok w then wait_status (child_end
                  (fg_child_code w (ContainsString userCommand ''>'') (ContainsString userCommand ''<'') d fileName
                     (snd (ParseUserInputToArgs uc2 (InitializeArgsArray (replicate MAX_ARGS None)))))) else 0) em),
              fg_errMsg = fst (snd (fg_parent_code (if waitpid_ok w then wait_status (child_end
                  (fg_child_code w (ContainsString userCommand ''>'') (ContainsString userCommand ''<'') d fileName
                     (snd (ParseUserInputToArgs uc2 (InitializeArgsArray (replicate MAX_ARGS None)))))) else 0) em)),
              fg_stdout = snd (snd (fg_parent_code (if waitpid_ok w then wait_status (child_end
                  (fg_child_code w (ContainsString userCommand ''>'') (ContainsString userCommand ''<'') d fileName
                     (snd (ParseUserInputToArgs uc2 (InitializeArgsArray (replicate MAX_ARGS None)))))) else 0) em)),
              fg_opened = opened,
              fg_child = fg_child_code w (ContainsString userCommand ''>'') (ContainsString userCommand ''<'') d fileName
                     (snd (ParseUserInputToArgs uc2 (InitializeArgsArray (replicate MAX_ARGS None))))\<rparr>"
  using assms by (simp add: RunForeGroundCommand_def Let_def split: prod.splits)

lemma RunBackGroundCommand_spawned:
  assumes "fork_pid w \<noteq> - 1"
    and "bg_redirects w userCommand (ContainsString userCommand ''>'') (ContainsString userCommand ''<'')
           = (uc2, fileName, d, opened)"
  shows "RunBackGroundCommand w userCommand =
     Returns \<lparr>bg_return = 0,
              bg_stdout = ''background pid is '' @ snprintf_d 10 (fork_pid w) @ [NL],
              bg_opened = opened,
              bg_child = bg_child_code w (ContainsString userCommand ''>'') d fileName
                     (snd (ParseUserInputToArgs uc2 (InitializeArgsArray (replicate MAX_ARGS None))))\<rparr>"
  using assms by (simp add: RunBackGroundCommand_def Let_def split: prod.splits)

lemma child_image_execvp:
  "child_image (execvp w i out argv) = Some args \<Longrightarrow> args = argv_seq argv"
  by (simp add: execvp_def split: if_splits option.splits)

lemma child_image_fg:
  "child_image (fg_child_code w ho hi d f argv) = Some args \<Longrightarrow> args = argv_seq argv"
  by (auto simp: fg_child_code_def dest: child_image_execvp split: if_splits)

lemma child_image_bg:
  "child_image (bg_child_code w ho d f argv) = Some args \<Longrightarrow> args = argv_seq argv"
  by (auto simp: bg_child_code_def dest: child_image_execvp split: if_splits)

lemma argv_seq_subset: "t \<in> set (argv_seq argv) \<Longrightarrow> Some t \<in> set argv"
proof -
  assume "t \<in> set (argv_seq argv)"
  then obtain a where a: "a \<in> set (takeWhile (\<lambda>a. a \<noteq> None) argv)" and t: "t = the a"
    by (auto simp: argv_seq_def)
  then have "a \<in> set argv" "a \<noteq> None" by (auto dest: set_takeWhileD)
  with t show ?thesis by auto
qed

lemma parsed_args_no_marker:
  assumes "t \<in> set (argv_seq (snd (ParseUserInputToArgs uc (InitializeArgsArray (replicate MAX_ARGS None)))))"
  shows "no_marker t"
  using ParseUserInputToArgs_slots [of "replicate MAX_ARGS None" t uc] argv_seq_subset [OF assms]
  by simp

text \<open>The names of the files the launchers open.\<close>

lemma launcher_file_names:
  assumes "space_split (cstr userCommand) = front @ m # post"
    and "is_redirect m" and "list_all (\<lambda>t. \<not> is_redirect t) post"
    and "length (space_split (cstr userCommand)) \<le> 512"
    and "length (cstr userCommand) < MAX_COMMAND_LENGTH"
  shows "list_all (\<lambda>(f, flags). f = (case post of [] \<Rightarrow> [] | f # _ \<Rightarrow> f))
           (snd (snd (snd (fg_redirects w userCommand (ContainsString userCommand ''>'')
                             (ContainsString userCommand ''<'')))))"
    and "list_all (\<lambda>(f, flags). f = (case post of [] \<Rightarrow> [] | f # _ \<Rightarrow> f) \<or> f = ''/dev/null'')
           (snd (snd (snd (bg_redirects w userCommand (ContainsString userCommand ''>'')
                             (ContainsString userCommand ''<'')))))"
proof -
  define X where "X = (case post of [] \<Rightarrow> [] | f # _ \<Rightarrow> f)"
  have "m \<in> set (space_split (cstr userCommand))" by (simp add: assms(1))
  moreover from assms(2) have "m = [CHR ''<''] \<or> m = [CHR ''>'']" by (simp add: is_redirect_def)
  ultimately have ch: "CHR ''<'' \<in> set (cstr userCommand) \<or> CHR ''>'' \<in> set (cstr userCommand)"
    using marker_token_char by metis
  have first: "snd (GetFileName userCommand []) = X"
    unfolding X_def by (rule GetFileName_first_scan [OF assms])
  have again: "snd (GetFileName (fst (GetFileName userCommand [])) X) = X"
    by (rule GetFileName_again [OF ch])
  obtain u where g1: "GetFileName userCommand [] = (u, X)"
    using first by (cases "GetFileName userCommand []") auto
  obtain u' where g2: "GetFileName u X = (u', X)"
    using again g1 by (cases "GetFileName u X") auto
  show "list_all (\<lambda>(f, flags). f = (case post of [] \<Rightarrow> [] | f # _ \<Rightarrow> f))
           (snd (snd (snd (fg_redirects w userCommand (ContainsString userCommand ''>'')
                             (ContainsString userCommand ''<'')))))"
    unfolding X_def [symmetric]
    by (simp add: fg_redirects_def ContainsString_single g1 g2)
  show "list_all (\<lambda>(f, flags). f = (case post of [] \<Rightarrow> [] | f # _ \<Rightarrow> f) \<or> f = ''/dev/null'')
           (snd (snd (snd (bg_redirects w userCommand (ContainsString userCommand ''>'')
                             (ContainsString userCommand ''<'')))))"
    unfolding X_def [symmetric]
    by (simp add: bg_redirects_def ContainsString_single g1 g2)
qed

section \<open>Wait statuses and decimal numbers\<close>

lemma digits_of_length: "0 < k \<Longrightarrow> n < 10 ^ k \<Longrightarrow> length (digits_of n) \<le> k"
proof (induction k arbitrary: n)
  case 0
  then show ?case by simp
next
  case (Suc k)
  show ?case
  proof (cases "n < 10")
    case True
    then show ?thesis by (subst digits_of.simps) simp
  next
    case False
    with Suc.prems have "0 < k" by (cases k) auto
    moreover from Suc.prems have "n div 10 < 10 ^ k" by (simp add: less_mult_imp_div_less mult.commute)
    ultimately have "length (digits_of (n div 10)) \<le> k" by (rule Suc.IH)
    with False show ?thesis by (subst digits_of.simps) simp
  qed
qed

lemma snprintf_d_small: "0 \<le> i \<Longrightarrow> i < 10 ^ (n - 1) \<Longrightarrow> 1 < n \<Longrightarrow> snprintf_d n i = show_int i"
proof -
  assume a: "0 \<le> i" "i < 10 ^ (n - 1)" "1 < n"
  then have "nat i < 10 ^ (n - 1)" by (simp add: nat_less_iff)
  with a have "length (digits_of (nat i)) \<le> n - 1" by (intro digits_of_length) auto
  with a show ?thesis by (simp add: snprintf_d_def show_int_def)
qed

lemma wait_Exited:
  "WEXITSTATUS (wait_status (Exited code)) = int (code mod 256)"
  "\<not> WIFSIGNALED (wait_status (Exited code))"
  by (simp_all add: WEXITSTATUS_def WIFSIGNALED_def Let_def wait_status.simps)

lemma wait_Signaled:
  assumes "0 < n" "n < 127"
  shows "WIFSIGNALED (wait_status (Signaled n core))"
    and "WTERMSIG (wait_status (Signaled n core)) = int n"
    and "WEXITSTATUS (wait_status (Signaled n core)) = 0"
  using assms by (auto simp: WEXITSTATUS_def WIFSIGNALED_def WTERMSIG_def Let_def wait_status.simps)

lemma fg_parent_code_Exited:
  "fg_parent_code (wait_status (Exited code)) em = (int (code mod 256), em, [])"
  by (simp add: fg_parent_code_def wait_Exited Let_def)

lemma show_int_length: "0 \<le> i \<Longrightarrow> i < 1000 \<Longrightarrow> length (show_int i) \<le> 3"
  using digits_of_length [of 3 "nat i"] by (simp add: show_int_def)

lemma fg_parent_code_Signaled:
  assumes "0 < n" "n < 127"
  shows "fg_parent_code (wait_status (Signaled n core)) em =
           (0, ''terminated by signal '' @ show_int (int n), ''terminated by signal '' @ show_int (int n) @ [NL])"
proof -
  have sn: "snprintf_d 10 (int n) = show_int (int n)"
    using assms by (intro snprintf_d_small) auto
  have "length (show_int (int n)) \<le> 3" using assms by (intro show_int_length) auto
  then show ?thesis
    using wait_Signaled [OF assms, of core]
    by (simp add: fg_parent_code_def Let_def sn strncpy_def MAX_ERR_MSG_LENGTH_def)
qed

lemma fg_parent_code_0: "fg_parent_code 0 em = (0, em, [])"
  by (simp add: fg_parent_code_def WEXITSTATUS_def WIFSIGNALED_def Let_def)


lemma execvp_runs:
  assumes "execvp_ok w" and "argv ! 0 = Some name"
  shows "execvp w inp out argv =
           \<lparr>child_stdin = inp, child_stdout = out, child_printed = [],
            child_image = Some (argv_seq argv), child_end = program_end w\<rparr>"
  using assms by (simp add: execvp_def)

lemma execvp_null:
  assumes "argv ! 0 = None"
  shows "execvp w inp out argv =
           \<lparr>child_stdin = inp, child_stdout = out, child_printed = [],
            child_image = None, child_end = Signaled SIGSEGV (core_dumps w)\<rparr>"
  using assms by (simp add: execvp_def)




text \<open>A command line with no redirection character that names a program.\<close>

lemma RunForeGroundCommand_plain:
  assumes "fork_pid w \<noteq> - 1" and "execvp_ok w"
    and "CHR ''<'' \<notin> set (cstr userCommand)" and "CHR ''>'' \<notin> set (cstr userCommand)"
    and "space_split (cstr userCommand) = name # rest" and "no_marker name"
  shows "\<exists>r. RunForeGroundCommand w userCommand em = Returns r
            \<and> child_end (fg_child r) = program_end w
            \<and> child_image (fg_child r) = Some (take 512 (takeWhile no_marker (space_split (cstr userCommand))))
            \<and> child_stdin (fg_child r) = None \<and> child_stdout (fg_child r) = None
            \<and> fg_opened r = []"
proof -
  have c: "ContainsString userCommand ''>'' = 0" "ContainsString userCommand ''<'' = 0"
    using assms(3,4) by (simp_all add: ContainsString_single)
  have red: "fg_redirects w userCommand (ContainsString userCommand ''>'') (ContainsString userCommand ''<'')
       = (userCommand, [], Bad_fd, [])"
    by (simp add: c fg_redirects_def)
  have args: "argv_seq (snd (ParseUserInputToArgs userCommand (InitializeArgsArray (replicate MAX_ARGS None))))
      = take 512 (takeWhile no_marker (space_split (cstr userCommand)))"
    by (rule parsed_argument_sequence) (simp add: InitializeArgsArray_eq)
  have a0: "snd (ParseUserInputToArgs userCommand (InitializeArgsArray (replicate MAX_ARGS None))) ! 0 = Some name"
    using assms(5,6) by (rule parsed_program_name)
  show ?thesis
    unfolding RunForeGroundCommand_spawned [OF assms(1) red]
    by (simp add: c fg_child_code_def execvp_runs [OF assms(2) a0] args)
qed

lemma os_ok_simps [simp]:
  "fork_pid (os_ok e) = 4923" "execvp_ok (os_ok e)" "program_end (os_ok e) = e"
  "can_open (os_ok e) f m" "home (os_ok e) = Some ''/home/user''"
  "waitpid_ok (os_ok e)" "\<not> core_dumps (os_ok e)"
  by (simp_all add: os_ok_def)

lemma digits_of_digit: "n < 10 \<Longrightarrow> digits_of n = [''0123456789'' ! n]"
  by (subst digits_of.simps) simp

lemma digits_of_more: "\<not> n < 10 \<Longrightarrow> digits_of n = digits_of (n div 10) @ [''0123456789'' ! (n mod 10)]"
  by (subst digits_of.simps) simp

text \<open>A background command line with an output redirection and no \<^verbatim>\<open><\<close>.\<close>

lemma RunBackGroundCommand_output_only:
  assumes "fork_pid w \<noteq> - 1" and "execvp_ok w" and "can_open w ''/dev/null'' O_RDONLY"
    and "CHR ''>'' \<in> set (cstr userCommand)" and "CHR ''<'' \<notin> set (cstr userCommand)"
    and "no_marker (hd (space_split (cstr userCommand)))"
  shows "\<exists>b. RunBackGroundCommand w userCommand = Returns b
            \<and> bg_opened b = [(snd (GetFileName userCommand []), O_WRONLY_O_TRUNC_O_CREAT),
                              (''/dev/null'', O_RDONLY)]
            \<and> child_image (bg_child b) = Some (take 512 (takeWhile no_marker [hd (space_split (cstr userCommand))]))
            \<and> child_stdout (bg_child b) = Some (Fd ''/dev/null'' O_RDONLY)
            \<and> child_stdin (bg_child b) = Some (Fd ''/dev/null'' O_RDONLY)"
proof -
  have c: "ContainsString userCommand ''>'' = 1" "ContainsString userCommand ''<'' = 0"
    using assms(4,5) by (simp_all add: ContainsString_single)
  have red: "bg_redirects w userCommand (ContainsString userCommand ''>'') (ContainsString userCommand ''<'')
       = (fst (GetFileName userCommand []), snd (GetFileName userCommand []), Fd ''/dev/null'' O_RDONLY,
          [(snd (GetFileName userCommand []), O_WRONLY_O_TRUNC_O_CREAT), (''/dev/null'', O_RDONLY)])"
    using assms(3) by (simp add: c bg_redirects_def os_open_def split: prod.splits)
  have one: "space_split (cstr (fst (GetFileName userCommand []))) = [hd (space_split (cstr userCommand))]"
    using assms(4) by (intro GetFileName_leaves_one_token) simp
  have args: "argv_seq (snd (ParseUserInputToArgs (fst (GetFileName userCommand []))
                   (InitializeArgsArray (replicate MAX_ARGS None))))
      = take 512 (takeWhile no_marker [hd (space_split (cstr userCommand))])"
    unfolding one [symmetric] by (rule parsed_argument_sequence) (simp add: InitializeArgsArray_eq)
  have a0: "snd (ParseUserInputToArgs (fst (GetFileName userCommand []))
                   (InitializeArgsArray (replicate MAX_ARGS None))) ! 0 = Some (hd (space_split (cstr userCommand)))"
    using one assms(6) by (rule parsed_program_name)
  show ?thesis
    unfolding RunBackGroundCommand_spawned [OF assms(1) red]
    by (simp add: c bg_child_code_def execvp_runs [OF assms(2) a0] args dup2_fails_def)
qed

text \<open>Without a \<^verbatim>\<open><\<close> in the line, a background program that is started reads from
  the null device.\<close>

lemma background_stdin_null:
  assumes "RunBackGroundCommand w userCommand = Returns b"
    and "CHR ''<'' \<notin> set (cstr userCommand)" and "child_image (bg_child b) = Some args"
  shows "child_stdin (bg_child b) = Some (Fd ''/dev/null'' O_RDONLY)"
proof -
  from assms(1) have fk: "fork_pid w \<noteq> - 1"
    using RunBackGroundCommand_fork_fails [of w userCommand] by auto
  have c: "ContainsString userCommand ''<'' = 0"
    using assms(2) by (simp add: ContainsString_single)
  obtain uc2 fileName d opened where red:
    "bg_redirects w userCommand (ContainsString userCommand ''>'') (ContainsString userCommand ''<'')
       = (uc2, fileName, d, opened)"
    using prod_cases4 by blast
  then have d: "d = os_open w ''/dev/null'' O_RDONLY"
    by (auto simp: c bg_redirects_def split: prod.splits if_splits)
  from RunBackGroundCommand_spawned [OF fk red] assms(1)
  have b: "bg_child b = bg_child_code w (ContainsString userCommand ''>'') d fileName
                     (snd (ParseUserInputToArgs uc2 (InitializeArgsArray (replicate MAX_ARGS None))))"
    by auto
  from assms(3) show ?thesis
    unfolding b d
    by (auto simp: bg_child_code_def execvp_def dup2_fails_def os_open_def split: if_splits option.splits)
qed

section \<open>The spawned process at execvp\<close>

lemma fg_redirects_keeps_first_token:
  assumes "fg_redirects w userCommand ho hi = (uc2, fileName, d, opened)"
    and "space_split (cstr userCommand) = name # rest"
  shows "\<exists>rest'. space_split (cstr uc2) = name # rest'"
proof -
  obtain r1 where 1: "space_split (cstr (fst (GetFileName userCommand []))) = name # r1"
    using GetFileName_keeps_first_token [OF assms(2)] by blast
  obtain r2 where 2: "space_split (cstr (fst (GetFileName (fst (GetFileName userCommand []))
                          (snd (GetFileName userCommand []))))) = name # r2"
    using GetFileName_keeps_first_token [OF 1] by blast
  from assms(1) show ?thesis
    using 1 2 assms(2)
    by (auto simp: fg_redirects_def split: if_splits prod.splits)
qed


lemma fg_redirects_fd:
  assumes "fg_redirects w userCommand ho hi = (uc2, fileName, d, opened)"
    and "list_all (\<lambda>(f, flags). can_open w f flags) opened"
    and "ho = 1 \<or> hi = 1"
  shows "\<not> dup2_fails d"
  using assms
  by (auto simp: fg_redirects_def dup2_fails_def os_open_def split: if_splits prod.splits)







text \<open>The value of \<^verbatim>\<open>status\<close> decides what the foreground launcher reports.\<close>

lemma RunForeGroundCommand_waited:
  assumes "RunForeGroundCommand w userCommand em = Returns r" and "waitpid_ok w"
  shows "(child_end (fg_child r) = Exited code \<and> code \<le> 255 \<longrightarrow>
            fg_return r = int code \<and> fg_errMsg r = em \<and> fg_stdout r = [])
       \<and> (child_end (fg_child r) = Signaled n core \<and> 0 < n \<and> n < 127 \<longrightarrow>
            fg_stdout r = ''terminated by signal '' @ show_int (int n) @ [NL]
          \<and> fg_errMsg r = ''terminated by signal '' @ show_int (int n))"
proof -
  from assms have fk: "fork_pid w \<noteq> - 1"
    using RunForeGroundCommand_fork_fails [of w userCommand em] by auto
  obtain uc2 fileName d opened where
    "fg_redirects w userCommand (ContainsString userCommand ''>'') (ContainsString userCommand ''<'')
       = (uc2, fileName, d, opened)"
    using prod_cases4 by blast
  from RunForeGroundCommand_spawned [OF fk this, of em] assms
  have r: "fg_return r = fst (fg_parent_code (wait_status (child_end (fg_child r))) em)"
      "fg_errMsg r = fst (snd (fg_parent_code (wait_status (child_end (fg_child r))) em))"
      "fg_stdout r = snd (snd (fg_parent_code (wait_status (child_end (fg_child r))) em))"
    by auto
  show ?thesis
  proof (intro conjI impI)
    assume "child_end (fg_child r) = Exited code \<and> code \<le> 255"
    then show "fg_return r = int code" "fg_errMsg r = em" "fg_stdout r = []"
      using r by (simp_all add: fg_parent_code_Exited)
  next
    assume "child_end (fg_child r) = Signaled n core \<and> 0 < n \<and> n < 127"
    then show "fg_stdout r = ''terminated by signal '' @ show_int (int n) @ [NL]"
      "fg_errMsg r = ''terminated by signal '' @ show_int (int n)"
      using r by (simp_all add: fg_parent_code_Signaled)
  qed
qed

lemma RunForeGroundCommand_not_waited:
  assumes "RunForeGroundCommand w userCommand em = Returns r" and "\<not> waitpid_ok w"
  shows "fg_return r = 0 \<and> fg_errMsg r = em \<and> fg_stdout r = []"
proof -
  from assms have fk: "fork_pid w \<noteq> - 1"
    using RunForeGroundCommand_fork_fails [of w userCommand em] by auto
  obtain uc2 fileName d opened where
    "fg_redirects w userCommand (ContainsString userCommand ''>'') (ContainsString userCommand ''<'')
       = (uc2, fileName, d, opened)"
    using prod_cases4 by blast
  from RunForeGroundCommand_spawned [OF fk this, of em] assms
  show ?thesis by (auto simp: fg_parent_code_0)
qed



text \<open>A line that names no program: its first token is a marker, or it has no token.\<close>

lemma fg_redirects_no_program:
  assumes "fg_redirects w userCommand (ContainsString userCommand ''>'') (ContainsString userCommand ''<'')
             = (uc2, fileName, d, opened)"
    and "takeWhile no_marker (space_split (cstr userCommand)) = []"
  shows "takeWhile no_marker (space_split (cstr uc2)) = []"
proof (cases "space_split (cstr userCommand)")
  case Nil
  then have "set (cstr userCommand) \<subseteq> {SP}" by (simp add: space_split_eq_Nil)
  then have "CHR ''<'' \<notin> set (cstr userCommand)" "CHR ''>'' \<notin> set (cstr userCommand)" by auto
  then have "uc2 = userCommand"
    using assms(1) by (simp add: fg_redirects_def ContainsString_single)
  with assms(2) show ?thesis by simp
next
  case (Cons m rest)
  with assms(2) have m: "\<not> no_marker m" by (simp split: if_splits)
  obtain rest' where "space_split (cstr uc2) = m # rest'"
    using fg_redirects_keeps_first_token [OF assms(1) Cons] by blast
  with m show ?thesis by simp
qed

lemma show_int_11: "show_int 11 = ''11''"
  by (simp add: show_int_def digits_of_digit digits_of_more)

lemma RunForeGroundCommand_no_program:
  assumes "fork_pid w \<noteq> - 1"
    and "takeWhile no_marker (space_split (cstr userCommand)) = []"
    and "list_all (\<lambda>(f, flags). can_open w f flags)
           (snd (snd (snd (fg_redirects w userCommand (ContainsString userCommand ''>'')
                             (ContainsString userCommand ''<'')))))"
  shows "\<exists>r. RunForeGroundCommand w userCommand em = Returns r
            \<and> child_printed (fg_child r) = [] \<and> child_image (fg_child r) = None
            \<and> child_end (fg_child r) = Signaled SIGSEGV (core_dumps w)
            \<and> fg_return r = 0
            \<and> fg_errMsg r = (if waitpid_ok w then ''terminated by signal 11'' else em)
            \<and> fg_stdout r = (if waitpid_ok w then ''terminated by signal 11'' @ [NL] else [])"
proof -
  obtain uc2 fileName d opened where red:
    "fg_redirects w userCommand (ContainsString userCommand ''>'') (ContainsString userCommand ''<'')
       = (uc2, fileName, d, opened)"
    using prod_cases4 by blast
  define argv where "argv = snd (ParseUserInputToArgs uc2 (InitializeArgsArray (replicate MAX_ARGS None)))"
  have "takeWhile no_marker (space_split (cstr uc2)) = []"
    using red assms(2) by (rule fg_redirects_no_program)
  then have a0: "argv ! 0 = None"
    unfolding argv_def by (rule parsed_no_program)
  have op: "list_all (\<lambda>(f, flags). can_open w f flags) opened"
    using assms(3) by (simp add: red)
  have d1: "ContainsString userCommand ''>'' \<noteq> 0 \<Longrightarrow> \<not> dup2_fails d"
    using fg_redirects_fd [OF red op] by (simp add: ContainsString_single split: if_splits)
  have d2: "ContainsString userCommand ''<'' \<noteq> 0 \<Longrightarrow> \<not> dup2_fails d"
    using fg_redirects_fd [OF red op] by (simp add: ContainsString_single split: if_splits)
  have c: "fg_child_code w (ContainsString userCommand ''>'') (ContainsString userCommand ''<'') d fileName argv
     = execvp w (if ContainsString userCommand ''<'' \<noteq> 0 then Some d else None)
                (if ContainsString userCommand ''>'' \<noteq> 0 then Some d else None) argv"
    using d1 d2 by (auto simp: fg_child_code_def)
  have p: "fg_parent_code (wait_status (Signaled SIGSEGV (core_dumps w))) em =
           (0, ''terminated by signal 11'', ''terminated by signal 11'' @ [NL])"
    using fg_parent_code_Signaled [of 11 "core_dumps w" em] by (simp add: SIGSEGV_def show_int_11)
  show ?thesis
    unfolding RunForeGroundCommand_spawned [OF assms(1) red] argv_def [symmetric] c execvp_null [OF a0]
    by (simp add: p fg_parent_code_0)
qed

section \<open>RemoveNewLineAndAddNullTerm\<close>

lemma unat_size_t_pred:
  assumes "0 < n" and "n \<le> MAX_COMMAND_LENGTH"
  shows "unat ((word_of_nat n :: 64 word) - 1) = n - 1"
proof -
  from assms have "(word_of_nat n :: 64 word) - 1 = word_of_nat (n - 1)"
    by (cases n) simp_all
  moreover from assms have "n - 1 < 2 ^ 64" by (simp add: MAX_COMMAND_LENGTH_def)
  ultimately show ?thesis by (simp add: unsigned_of_nat take_bit_nat_eq_self)
qed

lemma unat_size_t_underflow: "unat ((word_of_nat 0 :: 64 word) - 1) = 2 ^ 64 - 1"
  by (simp add: unsigned_minus_1_eq_mask mask_eq_exp_minus_1)

lemma RemoveNewLine_empty:
  "cstr stringValue = [] \<Longrightarrow> RemoveNewLineAndAddNullTerm stringValue = Inl Out_of_bounds"
  using unat_size_t_underflow
  by (simp add: RemoveNewLineAndAddNullTerm_def Let_def MAX_COMMAND_LENGTH_def)

lemma RemoveNewLine_nonempty:
  assumes "cstr stringValue \<noteq> []" and "length (cstr stringValue) \<le> MAX_COMMAND_LENGTH"
  shows "RemoveNewLineAndAddNullTerm stringValue =
           Inr (if byte_at stringValue (length (cstr stringValue) - 1) = NL
                then stringValue[length (cstr stringValue) - 1 := NUL] else stringValue)"
proof -
  from assms have "unat ((word_of_nat (length (cstr stringValue)) :: 64 word) - 1) = length (cstr stringValue) - 1"
    by (intro unat_size_t_pred) auto
  moreover from assms have "\<not> MAX_COMMAND_LENGTH \<le> length (cstr stringValue) - 1"
    by (cases "cstr stringValue") auto
  ultimately show ?thesis by (simp add: RemoveNewLineAndAddNullTerm_def Let_def)
qed

section \<open>The blocks written by sigchld_handler\<close>

lemma show_int_length9: "0 \<le> i \<Longrightarrow> i < 1000000000 \<Longrightarrow> length (show_int i) \<le> 9"
  using digits_of_length [of 9 "nat i"] by (simp add: show_int_def)

lemma array_bytes_short:
  "length s \<le> n \<Longrightarrow> array_bytes n s = s @ replicate (n - length s) NUL"
  by (simp add: array_bytes_def)

lemma childTerminateMsg_Exited:
  assumes "0 < p" "p < 1000000000" "code \<le> 255"
  shows "childTerminateMsg p (wait_status (Exited code)) = [NL] @ notice p (Exited code) @ [NL]"
proof -
  have 1: "snprintf_d 10 p = show_int p" using assms by (intro snprintf_d_small) auto
  have 2: "snprintf_d 5 (int code) = show_int (int code)" using assms by (intro snprintf_d_small) auto
  show ?thesis
    using assms(3)
    by (simp add: childTerminateMsg_def Let_def wait_Exited 1 2 strncpy_def MAX_ERR_MSG_LENGTH_def)
qed

lemma childTerminateMsg_Signaled:
  assumes "0 < p" "p < 1000000000" "0 < n" "n < 127"
  shows "childTerminateMsg p (wait_status (Signaled n core)) = [NL] @ notice p (Signaled n core) @ [NL]"
proof -
  have 1: "snprintf_d 10 p = show_int p" using assms by (intro snprintf_d_small) auto
  have 2: "snprintf_d 10 (int n) = show_int (int n)" using assms by (intro snprintf_d_small) auto
  show ?thesis
    using wait_Signaled [OF assms(3,4), of core]
    by (simp add: childTerminateMsg_def Let_def 1 2 strncpy_def MAX_ERR_MSG_LENGTH_def)
qed

lemma notice_length:
  assumes "reapable (p, e)"
  shows "length (notice p e) \<le> 58"
proof -
  from assms have p: "length (show_int p) \<le> 9" by (intro show_int_length9) (auto simp: reapable_def)
  show ?thesis
  proof (cases e)
    case (Exited code)
    with assms have "length (show_int (int code)) \<le> 3" by (intro show_int_length) (auto simp: reapable_def)
    with p Exited show ?thesis by simp
  next
    case (Signaled n core)
    with assms have "length (show_int (int n)) \<le> 3" by (intro show_int_length) (auto simp: reapable_def)
    with p Signaled show ?thesis by simp
  qed
qed

lemma written_block:
  assumes "reapable (p, e)"
  shows "array_bytes MAX_ERR_MSG_LENGTH (childTerminateMsg p (wait_status e)) = notice_block (p, e)"
proof -
  have msg: "childTerminateMsg p (wait_status e) = [NL] @ notice p e @ [NL]"
  proof (cases e)
    case (Exited code)
    with assms show ?thesis by (simp only: childTerminateMsg_Exited reapable_def fst_conv snd_conv ending.case)
  next
    case (Signaled n core)
    with assms show ?thesis by (simp only: childTerminateMsg_Signaled reapable_def fst_conv snd_conv ending.case)
  qed
  have "length ([NL] @ notice p e @ [NL]) \<le> MAX_ERR_MSG_LENGTH"
    using notice_length [OF assms] by (simp add: MAX_ERR_MSG_LENGTH_def)
  then show ?thesis
    unfolding msg by (simp add: array_bytes_short notice_block_def MAX_ERR_MSG_LENGTH_def)
qed

lemma show_int_4923: "show_int 4923 = ''4923''"
  by (simp add: show_int_def digits_of_digit digits_of_more)

lemma show_int_0: "show_int 0 = ''0''"
  by (simp add: show_int_def digits_of_digit)

section \<open>One pass of RunShellLoop\<close>

lemma body_external:
  assumes "RemoveNewLineAndAddNullTerm l = Inr userInput" and "is_external_command userInput"
  shows "RunShellLoop_body w s (Line_read l False) =
     (if ContainsString userInput ''&'' \<noteq> 0
      then (case RunBackGroundCommand w userInput of
              Shell_exit n \<Rightarrow> Shell_exits n [Print '': '']
            | Returns r \<Rightarrow> Next_iteration \<lparr>statusNumber = 0, errMsg = []\<rparr> [Print '': '', Background r])
      else (case RunForeGroundCommand w userInput [] of
              Shell_exit n \<Rightarrow> Shell_exits n [Print '': '']
            | Returns r \<Rightarrow>
                Next_iteration \<lparr>statusNumber = fg_return r, errMsg = fg_errMsg r\<rparr>
                  [Print '': '', Foreground r]))"
  using assms by (auto simp: RunShellLoop_body_def is_external_command_def Let_def)


lemma body_status:
  assumes "RemoveNewLineAndAddNullTerm l = Inr userInput" and "cstr userInput = ''status''"
  shows "RunShellLoop_body w s (Line_read l False) =
     Next_iteration \<lparr>statusNumber = 0, errMsg = []\<rparr>
       [Print '': '',
        Print (if errMsg s = [] then ''exit value '' @ show_int (statusNumber s) @ [NL]
               else errMsg s @ [NL])]"
proof -
  from assms(2) have "byte_at userInput 0 = CHR ''s''"
    by (cases userInput) (auto simp: byte_at_def split: if_splits)
  with assms show ?thesis by (simp add: RunShellLoop_body_def Let_def)
qed

lemma body_other:
  assumes "RemoveNewLineAndAddNullTerm l = Inr userInput" and "\<not> is_external_command userInput"
    and "cstr userInput \<noteq> ''status''" and "RunShellLoop_body w s (Line_read l False) = Next_iteration s' out"
  shows "s' = s"
  using assms
  by (auto simp: RunShellLoop_body_def is_external_command_def Let_def split: if_splits prod.splits)

lemma body_populated:
  assumes "RunShellLoop_body w s input = Next_iteration s' out"
  shows "s' = s \<or> s' = \<lparr>statusNumber = 0, errMsg = []\<rparr>
       \<or> (\<exists>r. out = [Print '': '', Foreground r] \<and> s' = \<lparr>statusNumber = fg_return r, errMsg = fg_errMsg r\<rparr>)"
proof (cases input)
  case Nothing_read
  with assms show ?thesis by (simp add: RunShellLoop_body_def RemoveNewLine_empty Let_def)
next
  case (Line_read l eof)
  show ?thesis
  proof (cases "RemoveNewLineAndAddNullTerm l")
    case (Inl f)
    with assms Line_read show ?thesis by (simp add: RunShellLoop_body_def Let_def)
  next
    case (Inr userInput)
    show ?thesis
    proof (cases eof)
      case True
      with assms Line_read Inr show ?thesis by (simp add: RunShellLoop_body_def Let_def)
    next
      case False
      then have eofF: "eof = False" by simp
      note b = assms [unfolded Line_read eofF]
      show ?thesis
      proof (cases "is_external_command userInput")
        case True
        from b show ?thesis unfolding body_external [OF Inr True]
          by (auto split: if_splits run.splits)
      next
        case ne: False
        show ?thesis
        proof (cases "cstr userInput = ''status''")
          case True
          from b show ?thesis unfolding body_status [OF Inr True] by simp
        next
          case False
          from body_other [OF Inr ne False b] show ?thesis by simp
        qed
      qed
    qed
  qed
qed

lemma RunForeGroundCommand_plain_exit:
  assumes "fork_pid w \<noteq> - 1" and "execvp_ok w"
    and "CHR ''<'' \<notin> set (cstr userCommand)" and "CHR ''>'' \<notin> set (cstr userCommand)"
    and "program_end w = Exited code" and "code \<le> 255"
    and "waitpid_ok w" and "space_split (cstr userCommand) = name # rest" and "no_marker name"
  shows "\<exists>r. RunForeGroundCommand w userCommand em = Returns r \<and> fg_return r = int code \<and> fg_errMsg r = em"
proof -
  have c: "ContainsString userCommand ''>'' = 0" "ContainsString userCommand ''<'' = 0"
    using assms(3,4) by (simp_all add: ContainsString_single)
  have red: "fg_redirects w userCommand (ContainsString userCommand ''>'') (ContainsString userCommand ''<'')
       = (userCommand, [], Bad_fd, [])"
    by (simp add: c fg_redirects_def)
  have a0: "snd (ParseUserInputToArgs userCommand (InitializeArgsArray (replicate MAX_ARGS None))) ! 0 = Some name"
    using assms(8,9) by (rule parsed_program_name)
  show ?thesis
    unfolding RunForeGroundCommand_spawned [OF assms(1) red]
    using assms(5,6,7) by (simp add: c fg_child_code_def execvp_runs [OF assms(2) a0] fg_parent_code_Exited)
qed

lemma RunBackGroundCommand_returns:
  assumes "fork_pid w \<noteq> - 1"
  shows "\<exists>b. RunBackGroundCommand w userCommand = Returns b"
proof -
  obtain uc2 fileName d opened where red:
    "bg_redirects w userCommand (ContainsString userCommand ''>'') (ContainsString userCommand ''<'')
       = (uc2, fileName, d, opened)"
    using prod_cases4 by blast
  show ?thesis unfolding RunBackGroundCommand_spawned [OF assms red] by simp
qed

lemma RemoveNewLine_line:
  assumes "NUL \<notin> set t" and "length t < MAX_COMMAND_LENGTH"
  shows "RemoveNewLineAndAddNullTerm (t @ [NL]) = Inr (t @ [NUL])"
proof -
  have c: "cstr (t @ [NL]) = t @ [NL]" using assms(1) by (simp add: cstr_append)
  have "RemoveNewLineAndAddNullTerm (t @ [NL]) =
           Inr (if byte_at (t @ [NL]) (length (cstr (t @ [NL])) - 1) = NL
                then (t @ [NL])[length (cstr (t @ [NL])) - 1 := NUL] else t @ [NL])"
    using assms(2) by (intro RemoveNewLine_nonempty) (simp_all add: c)
  then show ?thesis by (simp add: c byte_at_def)
qed

lemma show_int_1: "show_int 1 = ''1''"
  by (simp add: show_int_def digits_of_digit)

section \<open>The claims\<close>

text \<open>
  C2. For every raw line (the C string held in the buffer), \<^verbatim>\<open>ParseUserInputToArgs\<close>
  produces the space-delimited tokens of the line in order, up to and without the first
  token that is \<^verbatim>\<open>>\<close>, \<^verbatim>\<open><\<close> or \<^verbatim>\<open>&\<close>, and at most 512 of them; the empty line gives the
  empty sequence; a line with no such token gives its space-split cut at 512 entries.
\<close>

theorem ParseUserInputToArgs_tokens:
  assumes "length returnArr = MAX_ARGS"
  shows "argv_seq (snd (ParseUserInputToArgs userCommand returnArr)) =
           take 512 (takeWhile no_marker (space_split (cstr userCommand)))
       \<and> (cstr userCommand = [] \<longrightarrow> argv_seq (snd (ParseUserInputToArgs userCommand returnArr)) = [])
       \<and> (list_all no_marker (space_split (cstr userCommand)) \<longrightarrow>
            argv_seq (snd (ParseUserInputToArgs userCommand returnArr)) =
              take 512 (space_split (cstr userCommand)))"
proof -
  have tw: "takeWhile no_marker xs = xs" if "list_all no_marker xs" for xs
    using that by (simp add: list_all_iff)
  show ?thesis by (simp add: parsed_argument_sequence [OF assms] tw)
qed

theorem ParseUserInputToArgs_tokens_witness:
  "length (replicate MAX_ARGS (None :: string option)) = MAX_ARGS
   \<and> argv_seq (snd (ParseUserInputToArgs ''ls  -la dir > out'' (replicate MAX_ARGS None))) = [''ls'', ''-la'', ''dir'']
   \<and> cstr [] = []
   \<and> argv_seq (snd (ParseUserInputToArgs [] (replicate MAX_ARGS None))) = []
   \<and> list_all no_marker (space_split (cstr ''echo a>b''))
   \<and> argv_seq (snd (ParseUserInputToArgs ''echo a>b'' (replicate MAX_ARGS None))) = [''echo'', ''a>b'']"
  using ParseUserInputToArgs_tokens [of "replicate MAX_ARGS None" "''ls  -la dir > out''"]
    ParseUserInputToArgs_tokens [of "replicate MAX_ARGS None" "[]"]
    ParseUserInputToArgs_tokens [of "replicate MAX_ARGS None" "''echo a>b''"]
  by (simp add: space_split_def no_marker_def)

text \<open>
  C3, as the code has it. For a line that fits the buffer and has at most 512 tokens,
  one of them a redirection marker: an invocation of \<^verbatim>\<open>GetFileName\<close> on the line
  locates the last marker in left-to-right token order and stores the token that
  follows it as the file name; when no token follows, the file name is left as it
  was. After a second invocation, on the buffer and the file name the first one
  left (as both launchers call it), the file name is still that token; so every
  file a launcher opens for a redirection has that name.
\<close>

theorem GetFileName_last_marker:
  assumes "space_split (cstr userCommand) = front @ m # post"
    and "is_redirect m" and "list_all (\<lambda>t. \<not> is_redirect t) post"
    and "length (space_split (cstr userCommand)) \<le> 512"
    and "length (cstr userCommand) < MAX_COMMAND_LENGTH"
  shows "snd (GetFileName userCommand returnValue) = (case post of [] \<Rightarrow> returnValue | f # _ \<Rightarrow> f)
       \<and> snd (GetFileName (fst (GetFileName userCommand returnValue))
                          (snd (GetFileName userCommand returnValue)))
           = (case post of [] \<Rightarrow> returnValue | f # _ \<Rightarrow> f)
       \<and> list_all (\<lambda>(f, flags). f = (case post of [] \<Rightarrow> [] | f # _ \<Rightarrow> f))
           (snd (snd (snd (fg_redirects w userCommand (ContainsString userCommand ''>'')
                             (ContainsString userCommand ''<'')))))
       \<and> list_all (\<lambda>(f, flags). f = (case post of [] \<Rightarrow> [] | f # _ \<Rightarrow> f) \<or> f = ''/dev/null'')
           (snd (snd (snd (bg_redirects w userCommand (ContainsString userCommand ''>'')
                             (ContainsString userCommand ''<'')))))"
proof -
  have "m \<in> set (space_split (cstr userCommand))" by (simp add: assms(1))
  moreover from assms(2) have "m = [CHR ''<''] \<or> m = [CHR ''>'']" by (simp add: is_redirect_def)
  ultimately have ch: "CHR ''<'' \<in> set (cstr userCommand) \<or> CHR ''>'' \<in> set (cstr userCommand)"
    using marker_token_char by metis
  have "snd (GetFileName userCommand returnValue) = (case post of [] \<Rightarrow> returnValue | f # _ \<Rightarrow> f)
       \<and> snd (GetFileName (fst (GetFileName userCommand returnValue))
                          (snd (GetFileName userCommand returnValue)))
           = (case post of [] \<Rightarrow> returnValue | f # _ \<Rightarrow> f)"
    unfolding GetFileName_again [OF ch] GetFileName_first_scan [OF assms] by simp
  with launcher_file_names [OF assms, of w] show ?thesis by blast
qed

theorem GetFileName_last_marker_witness:
  "space_split (cstr ''sort -r < in.txt > out.txt'') = [''sort'', ''-r'', ''<'', ''in.txt''] @ ''>'' # [''out.txt'']
   \<and> is_redirect ''>'' \<and> list_all (\<lambda>t. \<not> is_redirect t) [''out.txt'']
   \<and> length (space_split (cstr ''sort -r < in.txt > out.txt'')) \<le> 512
   \<and> length (cstr ''sort -r < in.txt > out.txt'') < MAX_COMMAND_LENGTH
   \<and> snd (GetFileName ''sort -r < in.txt > out.txt'' []) = ''out.txt''
   \<and> snd (GetFileName (fst (GetFileName ''sort -r < in.txt > out.txt'' []))
                       (snd (GetFileName ''sort -r < in.txt > out.txt'' []))) = ''out.txt''
   \<and> list_all (\<lambda>(f, flags). f = ''out.txt'')
        (snd (snd (snd (fg_redirects (os_ok (Exited 0)) ''sort -r < in.txt > out.txt''
                          (ContainsString ''sort -r < in.txt > out.txt'' ''>'')
                          (ContainsString ''sort -r < in.txt > out.txt'' ''<'')))))
   \<and> list_all (\<lambda>(f, flags). f = ''out.txt'' \<or> f = ''/dev/null'')
        (snd (snd (snd (bg_redirects (os_ok (Exited 0)) ''sort -r < in.txt > out.txt''
                          (ContainsString ''sort -r < in.txt > out.txt'' ''>'')
                          (ContainsString ''sort -r < in.txt > out.txt'' ''<'')))))"
proof -
  have a: "space_split (cstr ''sort -r < in.txt > out.txt'') = [''sort'', ''-r'', ''<'', ''in.txt''] @ ''>'' # [''out.txt'']"
    by (simp add: space_split_def)
  have b: "is_redirect ''>''" by (simp add: is_redirect_def)
  have c: "list_all (\<lambda>t. \<not> is_redirect t) [''out.txt'']" by (simp add: is_redirect_def)
  have d: "length (space_split (cstr ''sort -r < in.txt > out.txt'')) \<le> 512" by (simp add: space_split_def)
  have e: "length (cstr ''sort -r < in.txt > out.txt'') < MAX_COMMAND_LENGTH" by (simp add: MAX_COMMAND_LENGTH_def)
  have r: "snd (GetFileName ''sort -r < in.txt > out.txt'' []) = ''out.txt''
   \<and> snd (GetFileName (fst (GetFileName ''sort -r < in.txt > out.txt'' []))
                       (snd (GetFileName ''sort -r < in.txt > out.txt'' []))) = ''out.txt''
   \<and> list_all (\<lambda>(f, flags). f = ''out.txt'')
        (snd (snd (snd (fg_redirects (os_ok (Exited 0)) ''sort -r < in.txt > out.txt''
                          (ContainsString ''sort -r < in.txt > out.txt'' ''>'')
                          (ContainsString ''sort -r < in.txt > out.txt'' ''<'')))))
   \<and> list_all (\<lambda>(f, flags). f = ''out.txt'' \<or> f = ''/dev/null'')
        (snd (snd (snd (bg_redirects (os_ok (Exited 0)) ''sort -r < in.txt > out.txt''
                          (ContainsString ''sort -r < in.txt > out.txt'' ''>'')
                          (ContainsString ''sort -r < in.txt > out.txt'' ''<'')))))"
    by (rule GetFileName_last_marker [OF a b c d e, of "[]" "os_ok (Exited 0)", unfolded list.case])
  from a b c d e r show ?thesis by blast
qed

text \<open>
  C3 as stated fails twice. \<^verbatim>\<open>strtok\<close> cuts the caller's buffer behind the first token,
  so a second invocation receives \<^verbatim>\<open>cat\<close>, not the line, and on its own finds no file
  name; and a marker behind the 512th token is never seen, so that the second token
  is returned.
\<close>

theorem GetFileName_rescan_counterexample:
  "snd (GetFileName ''cat < in > out'' []) = ''out''
   \<and> cstr (fst (GetFileName ''cat < in > out'' [])) = ''cat''
   \<and> snd (GetFileName (fst (GetFileName ''cat < in > out'' [])) []) = []
   \<and> snd (GetFileName (concat (replicate 512 ''x '') @ ''> out'') []) = ''x''"
proof -
  have 1: "snd (GetFileName ''cat < in > out'' []) = ''out''"
    by (simp add: GetFileName_result space_split_def MAX_ARGS_def is_redirect_def strncpy_def
        MAX_COMMAND_LENGTH_def)
  have 2: "cstr (fst (GetFileName ''cat < in > out'' [])) = ''cat''"
    by (simp add: GetFileName_buffer space_split_def)
  have 3: "snd (GetFileName (fst (GetFileName ''cat < in > out'' [])) []) = []"
    by (rule GetFileName_again) simp
  have c: "cstr (concat (replicate 512 ''x '') @ ''> out'') = concat (replicate 512 ''x '') @ ''> out''"
    by (rule cstr_id) simp
  have s: "space_split (concat (replicate 512 ''x '') @ ''> out'') = replicate 512 ''x'' @ [''>'', ''out'']"
    unfolding space_split_xs by (simp add: space_split_def)
  have l: "last_redirect 0 0 (replicate 512 ''x'') = 0"
    by (rule last_redirect_none) (simp add: list_all_iff is_redirect_def)
  have 4: "snd (GetFileName (concat (replicate 512 ''x '') @ ''> out'') []) = ''x''"
    unfolding GetFileName_result c s
    by (simp add: MAX_ARGS_def l strncpy_def MAX_COMMAND_LENGTH_def)
  from 1 2 3 4 show ?thesis by simp
qed

text \<open>
  C9. For every line that fits the buffer, in which \<^verbatim>\<open><\<close> or \<^verbatim>\<open>>\<close> occurs and no token
  is \<^verbatim>\<open><\<close> or \<^verbatim>\<open>>\<close>: the substring test finds a redirection, the scan leaves
  \<^verbatim>\<open>redirSymPosition\<close> at 0, and \<^verbatim>\<open>GetFileName\<close> returns the second token of the line
  when there is one, and leaves the file name as it was otherwise.
\<close>

theorem GetFileName_embedded_marker:
  assumes "CHR ''<'' \<in> set (cstr userCommand) \<or> CHR ''>'' \<in> set (cstr userCommand)"
    and "list_all (\<lambda>t. \<not> is_redirect t) (space_split (cstr userCommand))"
    and "length (cstr userCommand) < MAX_COMMAND_LENGTH"
  shows "(ContainsString userCommand ''<'' = 1 \<or> ContainsString userCommand ''>'' = 1)
       \<and> (case strtok_from [] userCommand of
            (currentToken, st) \<Rightarrow>
              fst (snd (snd (GetFileName_loop currentToken st 0 0
                               (InitializeArgsArray (replicate MAX_ARGS None))))) = 0)
       \<and> snd (GetFileName userCommand returnValue) =
            (case space_split (cstr userCommand) of
               t0 # t1 # ts \<Rightarrow> t1
             | _ \<Rightarrow> returnValue)"
proof -
  define toks where "toks = take (MAX_ARGS - 1) (space_split (cstr userCommand))"
  have none: "list_all (\<lambda>t. \<not> is_redirect t) toks"
    using assms(2) unfolding toks_def list_all_iff by (meson in_set_takeD)
  then have pos: "last_redirect 0 0 toks = 0" by (rule last_redirect_none)
  have A: "ContainsString userCommand ''<'' = 1 \<or> ContainsString userCommand ''>'' = 1"
    using assms(1) by (auto simp: ContainsString_single)
  obtain r st where tk: "strtok_from [] userCommand = (r, st)"
    by (cases "strtok_from [] userCommand") auto
  have sp: "space_split (cstr userCommand) = remaining_tokens r st"
    using strtok_from_split [of "[]" userCommand r "fst st" "snd st"] tk
    by (simp add: remaining_tokens_def)
  obtain st' n' p' arr' where lp:
    "GetFileName_loop r st 0 0 (replicate MAX_ARGS None) = (st', n', p', arr')"
    using prod_cases4 by blast
  have "n' = 0 + length (take (MAX_ARGS - 1 - 0) (remaining_tokens r st)) \<and>
         p' = last_redirect 0 0 (take (MAX_ARGS - 1 - 0) (remaining_tokens r st)) \<and>
         arr' = take 0 (replicate MAX_ARGS None) @ map Some (take (MAX_ARGS - 1 - 0) (remaining_tokens r st))
             @ drop (0 + length (take (MAX_ARGS - 1 - 0) (remaining_tokens r st))) (replicate MAX_ARGS None)"
    by (rule GetFileName_loop_collect [OF lp]) (simp_all add: MAX_ARGS_def)
  then have "p' = 0" using pos by (simp add: sp toks_def)
  then have B: "(case strtok_from [] userCommand of
            (currentToken, st) \<Rightarrow>
              fst (snd (snd (GetFileName_loop currentToken st 0 0
                               (InitializeArgsArray (replicate MAX_ARGS None))))) = 0)"
    by (simp add: tk lp InitializeArgsArray_eq)
  have res: "snd (GetFileName userCommand returnValue) =
     (if 1 < length toks then strncpy (toks ! 1) MAX_COMMAND_LENGTH else returnValue)"
    using assms(1) unfolding GetFileName_result toks_def [symmetric] pos by auto
  have C: "snd (GetFileName userCommand returnValue) =
            (case space_split (cstr userCommand) of t0 # t1 # ts \<Rightarrow> t1 | _ \<Rightarrow> returnValue)"
  proof (cases "space_split (cstr userCommand)")
    case Nil
    then show ?thesis by (simp add: res toks_def)
  next
    case (Cons t0 rest)
    show ?thesis
    proof (cases rest)
      case Nil
      with Cons show ?thesis by (simp add: res toks_def)
    next
      case (Cons t1 ts)
      with \<open>space_split (cstr userCommand) = t0 # rest\<close>
      have full: "space_split (cstr userCommand) = t0 # t1 # ts" by simp
      then have "t1 \<in> set (space_split (cstr userCommand))" by simp
      then have cp: "strncpy t1 MAX_COMMAND_LENGTH = t1" using assms(3) by (rule strncpy_token)
      have "toks ! 1 = t1" "1 < length toks"
        by (simp_all add: toks_def full MAX_ARGS_def)
      then show ?thesis using cp by (simp add: res full)
    qed
  qed
  from A B C show ?thesis by simp
qed

theorem GetFileName_embedded_marker_witness:
  "(CHR ''<'' \<in> set (cstr ''echo a>b c'') \<or> CHR ''>'' \<in> set (cstr ''echo a>b c''))
   \<and> list_all (\<lambda>t. \<not> is_redirect t) (space_split (cstr ''echo a>b c''))
   \<and> length (cstr ''echo a>b c'') < MAX_COMMAND_LENGTH
   \<and> ContainsString ''echo a>b c'' ''>'' = 1
   \<and> snd (GetFileName ''echo a>b c'' []) = ''a>b''"
proof -
  have a: "CHR ''<'' \<in> set (cstr ''echo a>b c'') \<or> CHR ''>'' \<in> set (cstr ''echo a>b c'')" by simp
  have b: "list_all (\<lambda>t. \<not> is_redirect t) (space_split (cstr ''echo a>b c''))"
    by (simp add: space_split_def is_redirect_def)
  have c: "length (cstr ''echo a>b c'') < MAX_COMMAND_LENGTH" by (simp add: MAX_COMMAND_LENGTH_def)
  have d: "ContainsString ''echo a>b c'' ''>'' = 1" by (simp add: ContainsString_single)
  have "space_split (cstr ''echo a>b c'') = [''echo'', ''a>b'', ''c'']"
    by (simp add: space_split_def)
  then have r: "snd (GetFileName ''echo a>b c'' []) = ''a>b''"
    using GetFileName_embedded_marker [OF a b c, of "[]", THEN conjunct2, THEN conjunct2]
    by (simp only: list.case)
  from a b c d r show ?thesis by blast
qed

text \<open>
  C1, at the session \<^verbatim>\<open>sleep 1 &\<close>, \<^verbatim>\<open>slow42\<close>, \<^verbatim>\<open>status\<close>, where the program \<^verbatim>\<open>slow42\<close> exits
  with code 42 after the background \<^verbatim>\<open>sleep\<close> has ended. The \<^verbatim>\<open>SIGCHLD\<close> of the background
  process interrupts the \<^verbatim>\<open>waitpid\<close> of the foreground launcher, which returns -1 and
  stores nothing; the launcher does not look at that value and decodes the 0 that
  \<^verbatim>\<open>status\<close> was initialised with. It returns 0 where the exit code of the program is 42,
  and \<^verbatim>\<open>status\<close> prints \<^verbatim>\<open>exit value 0\<close>. In the same way the message for a foreground
  process killed by signal 15 is neither printed nor stored. When \<^verbatim>\<open>waitpid\<close> stores the
  status, the value returned is the exit code, 42 here (in general: lemma
  \<^verbatim>\<open>RunForeGroundCommand_waited\<close>).
\<close>

theorem foreground_wait_result_ignored:
  "(case RunForeGroundCommand (os_ok (Exited 42)) ''slow42'' [] of
      Shell_exit n \<Rightarrow> False
    | Returns r \<Rightarrow> child_end (fg_child r) = Exited 42 \<and> fg_return r = 42)
   \<and> (case RunForeGroundCommand ((os_ok (Exited 42))\<lparr>waitpid_ok := False\<rparr>) ''slow42'' [] of
      Shell_exit n \<Rightarrow> False
    | Returns r \<Rightarrow>
        child_image (fg_child r) = Some [''slow42''] \<and> child_end (fg_child r) = Exited 42
      \<and> fg_return r = 0 \<and> fg_errMsg r = [] \<and> fg_stdout r = [])
   \<and> (case RunForeGroundCommand ((os_ok (Signaled 15 False))\<lparr>waitpid_ok := False\<rparr>) ''sleep 100'' [] of
      Shell_exit n \<Rightarrow> False
    | Returns r \<Rightarrow>
        child_image (fg_child r) = Some [''sleep'', ''100''] \<and> child_end (fg_child r) = Signaled 15 False
      \<and> fg_return r = 0 \<and> fg_errMsg r = [] \<and> fg_stdout r = [])
   \<and> RunShellLoop [(os_ok (Exited 0), Line_read (''sleep 1 &'' @ [NL]) False),
                   ((os_ok (Exited 42))\<lparr>waitpid_ok := False\<rparr>, Line_read (''slow42'' @ [NL]) False),
                   (os_ok (Exited 0), Line_read (''status'' @ [NL]) False)] ! 2
     = Next_iteration \<lparr>statusNumber = 0, errMsg = []\<rparr> [Print '': '', Print (''exit value 0'' @ [NL])]"
proof -
  let ?w = "(os_ok (Exited 42))\<lparr>waitpid_ok := False\<rparr>"
  let ?v = "(os_ok (Signaled 15 False))\<lparr>waitpid_ok := False\<rparr>"
  have t: "space_split (cstr ''slow42'') = [''slow42'']" "no_marker ''slow42''"
    by (simp_all add: space_split_def no_marker_def)
  have t': "space_split (cstr (''slow42'' @ [NUL])) = [''slow42'']"
    by (simp add: space_split_def)
  have u: "space_split (cstr ''sleep 100'') = [''sleep'', ''100'']" "no_marker ''sleep''" "no_marker ''100''"
    by (simp_all add: space_split_def no_marker_def)
  obtain r0 where r0: "RunForeGroundCommand (os_ok (Exited 42)) ''slow42'' [] = Returns r0"
    and e0: "child_end (fg_child r0) = Exited 42"
    using RunForeGroundCommand_plain [where w = "os_ok (Exited 42)" and userCommand = "''slow42''"
        and name = "''slow42''" and rest = "[]" and em = "[]"] t
    by auto
  from RunForeGroundCommand_waited [OF r0, of 42 15 False] e0
  have v0: "fg_return r0 = 42" by simp
  obtain r where r: "RunForeGroundCommand ?w ''slow42'' [] = Returns r"
    and e: "child_end (fg_child r) = Exited 42" and i: "child_image (fg_child r) = Some [''slow42'']"
    using RunForeGroundCommand_plain [where w = ?w and userCommand = "''slow42''"
        and name = "''slow42''" and rest = "[]" and em = "[]"] t
    by auto
  from RunForeGroundCommand_not_waited [OF r]
  have v: "fg_return r = 0 \<and> fg_errMsg r = [] \<and> fg_stdout r = []" by simp
  obtain q where q: "RunForeGroundCommand ?v ''sleep 100'' [] = Returns q"
    and eq: "child_end (fg_child q) = Signaled 15 False"
    and iq: "child_image (fg_child q) = Some [''sleep'', ''100'']"
    using RunForeGroundCommand_plain [where w = ?v and userCommand = "''sleep 100''"
        and name = "''sleep''" and rest = "[''100'']" and em = "[]"] u
    by auto
  from RunForeGroundCommand_not_waited [OF q]
  have vq: "fg_return q = 0 \<and> fg_errMsg q = [] \<and> fg_stdout q = []" by simp
  have l1: "RemoveNewLineAndAddNullTerm (''sleep 1 &'' @ [NL]) = Inr (''sleep 1 &'' @ [NUL])"
    by (rule RemoveNewLine_line) (simp_all add: MAX_COMMAND_LENGTH_def)
  have x1: "is_external_command (''sleep 1 &'' @ [NUL])"
    by (simp add: is_external_command_def byte_at_def)
  obtain b where b: "RunBackGroundCommand (os_ok (Exited 0)) (''sleep 1 &'' @ [NUL]) = Returns b"
    using RunBackGroundCommand_returns [of "os_ok (Exited 0)" "''sleep 1 &'' @ [NUL]"] by auto
  have s1: "RunShellLoop_body (os_ok (Exited 0)) \<lparr>statusNumber = 0, errMsg = []\<rparr>
              (Line_read (''sleep 1 &'' @ [NL]) False)
       = Next_iteration \<lparr>statusNumber = 0, errMsg = []\<rparr> [Print '': '', Background b]"
    unfolding body_external [OF l1 x1] using b by (simp add: ContainsString_single)
  have l2: "RemoveNewLineAndAddNullTerm (''slow42'' @ [NL]) = Inr (''slow42'' @ [NUL])"
    by (rule RemoveNewLine_line) (simp_all add: MAX_COMMAND_LENGTH_def)
  have x2: "is_external_command (''slow42'' @ [NUL])"
    by (simp add: is_external_command_def byte_at_def)
  obtain r' where r': "RunForeGroundCommand ?w (''slow42'' @ [NUL]) [] = Returns r'"
    using RunForeGroundCommand_plain [where w = ?w and userCommand = "''slow42'' @ [NUL]"
        and name = "''slow42''" and rest = "[]" and em = "[]"] t t'
    by auto
  from RunForeGroundCommand_not_waited [OF r']
  have v': "fg_return r' = 0" "fg_errMsg r' = []" by simp_all
  have s2: "RunShellLoop_body ?w \<lparr>statusNumber = 0, errMsg = []\<rparr> (Line_read (''slow42'' @ [NL]) False)
       = Next_iteration \<lparr>statusNumber = 0, errMsg = []\<rparr> [Print '': '', Foreground r']"
    unfolding body_external [OF l2 x2] using r' v' by (simp add: ContainsString_single)
  have l3: "RemoveNewLineAndAddNullTerm (''status'' @ [NL]) = Inr (''status'' @ [NUL])"
    by (rule RemoveNewLine_line) (simp_all add: MAX_COMMAND_LENGTH_def)
  have s3: "RunShellLoop_body (os_ok (Exited 0)) \<lparr>statusNumber = 0, errMsg = []\<rparr>
              (Line_read (''status'' @ [NL]) False)
       = Next_iteration \<lparr>statusNumber = 0, errMsg = []\<rparr> [Print '': '', Print (''exit value 0'' @ [NL])]"
    using body_status [OF l3, of "os_ok (Exited 0)" "\<lparr>statusNumber = 0, errMsg = []\<rparr>"]
    by (simp add: show_int_0)
  have A: "RunShellLoop [(os_ok (Exited 0), Line_read (''sleep 1 &'' @ [NL]) False),
                   (?w, Line_read (''slow42'' @ [NL]) False),
                   (os_ok (Exited 0), Line_read (''status'' @ [NL]) False)] ! 2
     = Next_iteration \<lparr>statusNumber = 0, errMsg = []\<rparr> [Print '': '', Print (''exit value 0'' @ [NL])]"
    using s1 s2 s3 by (simp add: RunShellLoop_def)
  from r0 e0 v0 r e i v q eq iq vq A show ?thesis by simp
qed

text \<open>
  C6. No slot of the argument array that \<^verbatim>\<open>ParseUserInputToArgs\<close> fills holds the token
  \<^verbatim>\<open><\<close>, \<^verbatim>\<open>>\<close> or \<^verbatim>\<open>&\<close>, whatever the buffer holds; and the argument sequence of a program
  started by either launcher contains none of them.
\<close>

theorem argv_never_holds_marker:
  "(length arr = MAX_ARGS \<longrightarrow>
      Some ''<'' \<notin> set (snd (ParseUserInputToArgs userCommand (InitializeArgsArray arr)))
    \<and> Some ''>'' \<notin> set (snd (ParseUserInputToArgs userCommand (InitializeArgsArray arr)))
    \<and> Some ''&'' \<notin> set (snd (ParseUserInputToArgs userCommand (InitializeArgsArray arr))))
   \<and> (RunForeGroundCommand w userCommand em = Returns r \<and> child_image (fg_child r) = Some args \<longrightarrow>
        ''<'' \<notin> set args \<and> ''>'' \<notin> set args \<and> ''&'' \<notin> set args)
   \<and> (RunBackGroundCommand w userCommand = Returns b \<and> child_image (bg_child b) = Some args \<longrightarrow>
        ''<'' \<notin> set args \<and> ''>'' \<notin> set args \<and> ''&'' \<notin> set args)"
proof (intro conjI impI)
  assume len: "length arr = MAX_ARGS"
  show "Some ''<'' \<notin> set (snd (ParseUserInputToArgs userCommand (InitializeArgsArray arr)))"
    using ParseUserInputToArgs_slots [OF len, of "''<''" userCommand] by (auto simp: no_marker_def)
  show "Some ''>'' \<notin> set (snd (ParseUserInputToArgs userCommand (InitializeArgsArray arr)))"
    using ParseUserInputToArgs_slots [OF len, of "''>''" userCommand] by (auto simp: no_marker_def)
  show "Some ''&'' \<notin> set (snd (ParseUserInputToArgs userCommand (InitializeArgsArray arr)))"
    using ParseUserInputToArgs_slots [OF len, of "''&''" userCommand] by (auto simp: no_marker_def)
next
  assume a: "RunForeGroundCommand w userCommand em = Returns r \<and> child_image (fg_child r) = Some args"
  then have fk: "fork_pid w \<noteq> - 1" using RunForeGroundCommand_fork_fails [of w userCommand em] by auto
  obtain uc2 fileName d opened where
    "fg_redirects w userCommand (ContainsString userCommand ''>'') (ContainsString userCommand ''<'')
       = (uc2, fileName, d, opened)"
    using prod_cases4 by blast
  from RunForeGroundCommand_spawned [OF fk this, of em] a
  have "args = argv_seq (snd (ParseUserInputToArgs uc2 (InitializeArgsArray (replicate MAX_ARGS None))))"
    by (auto dest: child_image_fg)
  then have nm: "\<And>t. t \<in> set args \<Longrightarrow> no_marker t" using parsed_args_no_marker by blast
  show "''<'' \<notin> set args" using nm [of "''<''"] by (auto simp: no_marker_def)
  show "''>'' \<notin> set args" using nm [of "''>''"] by (auto simp: no_marker_def)
  show "''&'' \<notin> set args" using nm [of "''&''"] by (auto simp: no_marker_def)
next
  assume a: "RunBackGroundCommand w userCommand = Returns b \<and> child_image (bg_child b) = Some args"
  then have fk: "fork_pid w \<noteq> - 1" using RunBackGroundCommand_fork_fails [of w userCommand] by auto
  obtain uc2 fileName d opened where
    "bg_redirects w userCommand (ContainsString userCommand ''>'') (ContainsString userCommand ''<'')
       = (uc2, fileName, d, opened)"
    using prod_cases4 by blast
  from RunBackGroundCommand_spawned [OF fk this] a
  have "args = argv_seq (snd (ParseUserInputToArgs uc2 (InitializeArgsArray (replicate MAX_ARGS None))))"
    by (auto dest: child_image_bg)
  then have nm: "\<And>t. t \<in> set args \<Longrightarrow> no_marker t" using parsed_args_no_marker by blast
  show "''<'' \<notin> set args" using nm [of "''<''"] by (auto simp: no_marker_def)
  show "''>'' \<notin> set args" using nm [of "''>''"] by (auto simp: no_marker_def)
  show "''&'' \<notin> set args" using nm [of "''&''"] by (auto simp: no_marker_def)
qed


theorem argv_never_holds_marker_witness:
  "length (replicate MAX_ARGS (None :: string option)) = MAX_ARGS
   \<and> Some ''<'' \<notin> set (snd (ParseUserInputToArgs ''wc < junk &'' (InitializeArgsArray (replicate MAX_ARGS None))))
   \<and> Some ''>'' \<notin> set (snd (ParseUserInputToArgs ''wc < junk &'' (InitializeArgsArray (replicate MAX_ARGS None))))
   \<and> Some ''&'' \<notin> set (snd (ParseUserInputToArgs ''wc < junk &'' (InitializeArgsArray (replicate MAX_ARGS None))))
   \<and> (\<exists>r args. RunForeGroundCommand (os_ok (Exited 0)) ''ls -la'' [] = Returns r
         \<and> child_image (fg_child r) = Some args
         \<and> ''<'' \<notin> set args \<and> ''>'' \<notin> set args \<and> ''&'' \<notin> set args)
   \<and> (\<exists>b args. RunBackGroundCommand (os_ok (Exited 0)) ''ls > out.txt &'' = Returns b
         \<and> child_image (bg_child b) = Some args
         \<and> ''<'' \<notin> set args \<and> ''>'' \<notin> set args \<and> ''&'' \<notin> set args)"
proof -
  have len: "length (replicate MAX_ARGS (None :: string option)) = MAX_ARGS" by simp
  have t: "space_split (cstr ''ls -la'') = [''ls'', ''-la'']" "no_marker ''ls''"
    by (simp_all add: space_split_def no_marker_def)
  have n: "no_marker (hd (space_split (cstr ''ls > out.txt &'')))"
    by (simp add: space_split_def no_marker_def)
  obtain r args where r: "RunForeGroundCommand (os_ok (Exited 0)) ''ls -la'' [] = Returns r"
    and a: "child_image (fg_child r) = Some args"
    using RunForeGroundCommand_plain [where w = "os_ok (Exited 0)" and userCommand = "''ls -la''"
        and name = "''ls''" and rest = "[''-la'']" and em = "[]"] t
    by auto
  obtain b args' where b: "RunBackGroundCommand (os_ok (Exited 0)) ''ls > out.txt &'' = Returns b"
    and a': "child_image (bg_child b) = Some args'"
    using RunBackGroundCommand_output_only [of "os_ok (Exited 0)" "''ls > out.txt &''"] n by auto
  from argv_never_holds_marker [where arr = "replicate MAX_ARGS None" and userCommand = "''wc < junk &''"] len
  have 1: "Some ''<'' \<notin> set (snd (ParseUserInputToArgs ''wc < junk &'' (InitializeArgsArray (replicate MAX_ARGS None))))
   \<and> Some ''>'' \<notin> set (snd (ParseUserInputToArgs ''wc < junk &'' (InitializeArgsArray (replicate MAX_ARGS None))))
   \<and> Some ''&'' \<notin> set (snd (ParseUserInputToArgs ''wc < junk &'' (InitializeArgsArray (replicate MAX_ARGS None))))"
    by blast
  from argv_never_holds_marker [where userCommand = "''ls -la''" and w = "os_ok (Exited 0)"
      and em = "[]" and r = r and args = args] r a
  have 2: "''<'' \<notin> set args \<and> ''>'' \<notin> set args \<and> ''&'' \<notin> set args" by blast
  from argv_never_holds_marker [where userCommand = "''ls > out.txt &''" and w = "os_ok (Exited 0)"
      and b = b and args = args'] b a'
  have 3: "''<'' \<notin> set args' \<and> ''>'' \<notin> set args' \<and> ''&'' \<notin> set args'" by blast
  from len 1 2 3 r a b a' show ?thesis by blast
qed



text \<open>
  C4, at the input \<^verbatim>\<open>ls > out.txt &\<close> with every system call succeeding:
  \<^verbatim>\<open>out.txt\<close> is opened (created, truncated), but \<^verbatim>\<open>fd\<close> is then overwritten with the
  descriptor of \<^verbatim>\<open>/dev/null\<close>, opened for reading, and the standard output of the
  spawned \<^verbatim>\<open>ls\<close> is bound to that descriptor, as is its standard input.
\<close>

theorem background_output_redirect_lost:
  "(case RunBackGroundCommand (os_ok (Exited 0)) ''ls > out.txt &'' of
      Shell_exit n \<Rightarrow> False
    | Returns b \<Rightarrow>
        bg_opened b = [(''out.txt'', O_WRONLY_O_TRUNC_O_CREAT), (''/dev/null'', O_RDONLY)]
      \<and> child_image (bg_child b) = Some [''ls'']
      \<and> child_stdout (bg_child b) = Some (Fd ''/dev/null'' O_RDONLY)
      \<and> child_stdin (bg_child b) = Some (Fd ''/dev/null'' O_RDONLY))"
proof -
  have f: "snd (GetFileName ''ls > out.txt &'' []) = ''out.txt''"
    by (simp add: GetFileName_result space_split_def MAX_ARGS_def is_redirect_def strncpy_def
        MAX_COMMAND_LENGTH_def)
  have t: "take 512 (takeWhile no_marker [hd (space_split (cstr ''ls > out.txt &''))]) = [''ls'']"
    by (simp add: space_split_def no_marker_def)
  have n: "no_marker (hd (space_split (cstr ''ls > out.txt &'')))"
    by (simp add: space_split_def no_marker_def)
  from RunBackGroundCommand_output_only [of "os_ok (Exited 0)" "''ls > out.txt &''"] n
  obtain b where "RunBackGroundCommand (os_ok (Exited 0)) ''ls > out.txt &'' = Returns b"
    and "bg_opened b = [(snd (GetFileName ''ls > out.txt &'' []), O_WRONLY_O_TRUNC_O_CREAT),
                              (''/dev/null'', O_RDONLY)]"
    and "child_image (bg_child b) = Some (take 512 (takeWhile no_marker [hd (space_split (cstr ''ls > out.txt &''))]))"
    and "child_stdout (bg_child b) = Some (Fd ''/dev/null'' O_RDONLY)"
    and "child_stdin (bg_child b) = Some (Fd ''/dev/null'' O_RDONLY)"
    by auto
  then show ?thesis unfolding f t by simp
qed

text \<open>
  C10. \<^verbatim>\<open>RemoveNewLineAndAddNullTerm\<close> needs a non-empty string: on the empty string
  \<^verbatim>\<open>strlen(s) - 1\<close> wraps to the largest \<^verbatim>\<open>size_t\<close> and the read at that index is out of
  bounds, while on a non-empty string that fits the buffer the index is that of the
  last character. The empty string reaches it: at the end of input \<^verbatim>\<open>fgets\<close> stores
  nothing in the cleared buffer, and the call comes before the \<^verbatim>\<open>feof\<close> test.
\<close>

theorem RemoveNewLine_needs_nonempty:
  "(cstr stringValue = [] \<longrightarrow> RemoveNewLineAndAddNullTerm stringValue = Inl Out_of_bounds)
   \<and> (cstr stringValue \<noteq> [] \<and> length (cstr stringValue) \<le> MAX_COMMAND_LENGTH \<longrightarrow>
        RemoveNewLineAndAddNullTerm stringValue =
           Inr (if byte_at stringValue (length (cstr stringValue) - 1) = NL
                then stringValue[length (cstr stringValue) - 1 := NUL] else stringValue))
   \<and> RunShellLoop_body w s Nothing_read = Memory_fault"
proof (intro conjI impI)
  assume "cstr stringValue = []"
  then show "RemoveNewLineAndAddNullTerm stringValue = Inl Out_of_bounds" by (rule RemoveNewLine_empty)
next
  assume "cstr stringValue \<noteq> [] \<and> length (cstr stringValue) \<le> MAX_COMMAND_LENGTH"
  then show "RemoveNewLineAndAddNullTerm stringValue =
           Inr (if byte_at stringValue (length (cstr stringValue) - 1) = NL
                then stringValue[length (cstr stringValue) - 1 := NUL] else stringValue)"
    by (simp add: RemoveNewLine_nonempty)
next
  show "RunShellLoop_body w s Nothing_read = Memory_fault"
    by (simp add: RunShellLoop_body_def RemoveNewLine_empty)
qed

theorem RemoveNewLine_needs_nonempty_witness:
  "cstr [] = [] \<and> RemoveNewLineAndAddNullTerm [] = Inl Out_of_bounds
   \<and> cstr (''ls'' @ [NL]) \<noteq> [] \<and> length (cstr (''ls'' @ [NL])) \<le> MAX_COMMAND_LENGTH
   \<and> RemoveNewLineAndAddNullTerm (''ls'' @ [NL]) = Inr (''ls'' @ [NUL])
   \<and> RunShellLoop_body (os_ok (Exited 0)) \<lparr>statusNumber = 0, errMsg = []\<rparr> Nothing_read = Memory_fault"
proof -
  have a: "cstr [] = []" by simp
  have b: "cstr (''ls'' @ [NL]) \<noteq> [] \<and> length (cstr (''ls'' @ [NL])) \<le> MAX_COMMAND_LENGTH"
    by (simp add: MAX_COMMAND_LENGTH_def)
  note T1 = RemoveNewLine_needs_nonempty [of "[]" "os_ok (Exited 0)" "\<lparr>statusNumber = 0, errMsg = []\<rparr>"]
  note T2 = RemoveNewLine_needs_nonempty [of "''ls'' @ [NL]" "os_ok (Exited 0)" "\<lparr>statusNumber = 0, errMsg = []\<rparr>"]
  from T1 a have 1: "RemoveNewLineAndAddNullTerm [] = Inl Out_of_bounds" by blast
  from T2 b have "RemoveNewLineAndAddNullTerm (''ls'' @ [NL]) =
           Inr (if byte_at (''ls'' @ [NL]) (length (cstr (''ls'' @ [NL])) - 1) = NL
                then (''ls'' @ [NL])[length (cstr (''ls'' @ [NL])) - 1 := NUL] else ''ls'' @ [NL])" by blast
  then have 2: "RemoveNewLineAndAddNullTerm (''ls'' @ [NL]) = Inr (''ls'' @ [NUL])"
    by (simp add: byte_at_def)
  from T1 have 3: "RunShellLoop_body (os_ok (Exited 0)) \<lparr>statusNumber = 0, errMsg = []\<rparr> Nothing_read = Memory_fault"
    by blast
  from a b 1 2 3 show ?thesis by blast
qed

text \<open>
  C5, as the code has it. The handler reaps every terminated child and then stops,
  and for each child it makes one write: a block that starts with a newline, the
  notice \<^verbatim>\<open>background pid <pid> is done: exit value <code>\<close> or
  \<^verbatim>\<open>background pid <pid> is done: terminated by signal <n>\<close>, and a newline. The block
  is the whole message array of 80 bytes.
\<close>

theorem sigchld_handler_notices:
  assumes "list_all reapable zombies"
  shows "sigchld_handler zombies = ([], concat (map notice_block zombies))"
  using assms
proof (induction zombies)
  case Nil
  then show ?case by simp
next
  case (Cons z zombies)
  obtain p e where z: "z = (p, e)" by (cases z)
  from Cons.prems z have r: "reapable (p, e)" and rest: "list_all reapable zombies" by simp_all
  from r have "0 < p" by (simp add: reapable_def)
  with Cons.IH [OF rest] written_block [OF r] show ?case by (simp add: z)
qed

theorem sigchld_handler_notices_witness:
  "list_all reapable [(4923, Exited 0), (4924, Signaled 15 False)]
   \<and> sigchld_handler [(4923, Exited 0), (4924, Signaled 15 False)] =
       ([], concat (map notice_block [(4923, Exited 0), (4924, Signaled 15 False)]))"
proof -
  have a: "list_all reapable [(4923, Exited 0), (4924, Signaled 15 False)]"
    by (simp add: reapable_def)
  from sigchld_handler_notices [OF a] a show ?thesis by blast
qed

text \<open>
  C5 as stated fails: what is written for a child is not the notice, nor the notice
  and a newline, but 80 bytes.
\<close>

theorem sigchld_handler_bytes_counterexample:
  "snd (sigchld_handler [(4923, Exited 0)]) =
      [NL] @ ''background pid 4923 is done: exit value 0'' @ [NL] @ replicate 37 NUL
   \<and> length (snd (sigchld_handler [(4923, Exited 0)])) = 80
   \<and> snd (sigchld_handler [(4923, Exited 0)]) \<noteq> ''background pid 4923 is done: exit value 0''
   \<and> snd (sigchld_handler [(4923, Exited 0)]) \<noteq> ''background pid 4923 is done: exit value 0'' @ [NL]"
proof -
  have r: "reapable (4923, Exited 0)" by (simp add: reapable_def)
  have "snd (sigchld_handler [(4923, Exited 0)]) = notice_block (4923, Exited 0)"
    using written_block [OF r] by simp
  also have "\<dots> = [NL] @ ''background pid 4923 is done: exit value 0'' @ [NL] @ replicate 37 NUL"
    by (simp add: notice_block_def show_int_4923 show_int_0)
  finally have 1: "snd (sigchld_handler [(4923, Exited 0)]) =
      [NL] @ ''background pid 4923 is done: exit value 0'' @ [NL] @ replicate 37 NUL" .
  show ?thesis unfolding 1 by simp
qed

text \<open>
  C7, as the code has it. The status state is reset before an external command runs
  (the pass gives what it gives from the initial state) and after a status query has
  printed it; every other line leaves it as it is; a pass changes it to nothing but
  its initial value or, after a foreground command, that command's return value and
  message; and \<^verbatim>\<open>status\<close> as the first line prints \<^verbatim>\<open>exit value 0\<close>.
\<close>

theorem status_state_lifecycle:
  "(RemoveNewLineAndAddNullTerm l = Inr userInput \<and> is_external_command userInput \<longrightarrow>
       RunShellLoop_body w s (Line_read l False)
         = RunShellLoop_body w \<lparr>statusNumber = 0, errMsg = []\<rparr> (Line_read l False)
     \<and> (ContainsString userInput ''&'' \<noteq> 0 \<and> RunBackGroundCommand w userInput = Returns b \<longrightarrow>
          RunShellLoop_body w s (Line_read l False)
            = Next_iteration \<lparr>statusNumber = 0, errMsg = []\<rparr> [Print '': '', Background b])
     \<and> (ContainsString userInput ''&'' = 0 \<and> RunForeGroundCommand w userInput [] = Returns r \<longrightarrow>
          RunShellLoop_body w s (Line_read l False)
            = Next_iteration \<lparr>statusNumber = fg_return r, errMsg = fg_errMsg r\<rparr> [Print '': '', Foreground r]))
   \<and> (RemoveNewLineAndAddNullTerm l = Inr userInput \<and> cstr userInput = ''status'' \<longrightarrow>
        RunShellLoop_body w s (Line_read l False) =
          Next_iteration \<lparr>statusNumber = 0, errMsg = []\<rparr>
            [Print '': '',
             Print (if errMsg s = [] then ''exit value '' @ show_int (statusNumber s) @ [NL]
                    else errMsg s @ [NL])])
   \<and> (RemoveNewLineAndAddNullTerm l = Inr userInput \<and> \<not> is_external_command userInput
        \<and> cstr userInput \<noteq> ''status''
        \<and> RunShellLoop_body w s (Line_read l False) = Next_iteration s' out \<longrightarrow> s' = s)
   \<and> (RunShellLoop_body w s input = Next_iteration s' out \<longrightarrow>
        s' = s \<or> s' = \<lparr>statusNumber = 0, errMsg = []\<rparr>
        \<or> (\<exists>r. out = [Print '': '', Foreground r]
                \<and> s' = \<lparr>statusNumber = fg_return r, errMsg = fg_errMsg r\<rparr>))
   \<and> RunShellLoop [(w, Line_read (''status'' @ [NL]) False)] =
        [Next_iteration \<lparr>statusNumber = 0, errMsg = []\<rparr> [Print '': '', Print (''exit value 0'' @ [NL])]]"
proof (intro conjI impI)
  assume a: "RemoveNewLineAndAddNullTerm l = Inr userInput \<and> is_external_command userInput"
  then have e: "RemoveNewLineAndAddNullTerm l = Inr userInput" "is_external_command userInput" by simp_all
  show "RunShellLoop_body w s (Line_read l False)
         = RunShellLoop_body w \<lparr>statusNumber = 0, errMsg = []\<rparr> (Line_read l False)"
    unfolding body_external [OF e] ..
  {
    assume "ContainsString userInput ''&'' \<noteq> 0 \<and> RunBackGroundCommand w userInput = Returns b"
    then show "RunShellLoop_body w s (Line_read l False)
            = Next_iteration \<lparr>statusNumber = 0, errMsg = []\<rparr> [Print '': '', Background b]"
      unfolding body_external [OF e] by simp
  }
  {
    assume "ContainsString userInput ''&'' = 0 \<and> RunForeGroundCommand w userInput [] = Returns r"
    then show "RunShellLoop_body w s (Line_read l False)
            = Next_iteration \<lparr>statusNumber = fg_return r, errMsg = fg_errMsg r\<rparr> [Print '': '', Foreground r]"
      unfolding body_external [OF e] by simp
  }
next
  assume "RemoveNewLineAndAddNullTerm l = Inr userInput \<and> cstr userInput = ''status''"
  then show "RunShellLoop_body w s (Line_read l False) =
          Next_iteration \<lparr>statusNumber = 0, errMsg = []\<rparr>
            [Print '': '',
             Print (if errMsg s = [] then ''exit value '' @ show_int (statusNumber s) @ [NL]
                    else errMsg s @ [NL])]"
    by (simp add: body_status)
next
  assume "RemoveNewLineAndAddNullTerm l = Inr userInput \<and> \<not> is_external_command userInput
        \<and> cstr userInput \<noteq> ''status''
        \<and> RunShellLoop_body w s (Line_read l False) = Next_iteration s' out"
  then show "s' = s" using body_other by blast
next
  assume "RunShellLoop_body w s input = Next_iteration s' out"
  then show "s' = s \<or> s' = \<lparr>statusNumber = 0, errMsg = []\<rparr>
        \<or> (\<exists>r. out = [Print '': '', Foreground r]
                \<and> s' = \<lparr>statusNumber = fg_return r, errMsg = fg_errMsg r\<rparr>)"
    by (rule body_populated)
next
  have r: "RemoveNewLineAndAddNullTerm (''status'' @ [NL]) = Inr (''status'' @ [NUL])"
    by (subst RemoveNewLine_nonempty) (simp_all add: MAX_COMMAND_LENGTH_def byte_at_def)
  show "RunShellLoop [(w, Line_read (''status'' @ [NL]) False)] =
        [Next_iteration \<lparr>statusNumber = 0, errMsg = []\<rparr> [Print '': '', Print (''exit value 0'' @ [NL])]]"
    using body_status [OF r, of w "\<lparr>statusNumber = 0, errMsg = []\<rparr>"]
    by (simp add: RunShellLoop_def show_int_0)
qed


theorem status_state_lifecycle_witness:
  "RemoveNewLineAndAddNullTerm (''false'' @ [NL]) = Inr (''false'' @ [NUL])
   \<and> is_external_command (''false'' @ [NUL])
   \<and> RunShellLoop_body (os_ok (Exited 1)) \<lparr>statusNumber = 7, errMsg = ''old''\<rparr> (Line_read (''false'' @ [NL]) False)
       = RunShellLoop_body (os_ok (Exited 1)) \<lparr>statusNumber = 0, errMsg = []\<rparr> (Line_read (''false'' @ [NL]) False)
   \<and> ContainsString (''false'' @ [NUL]) ''&'' = 0
   \<and> (\<exists>r. RunForeGroundCommand (os_ok (Exited 1)) (''false'' @ [NUL]) [] = Returns r
         \<and> RunShellLoop_body (os_ok (Exited 1)) \<lparr>statusNumber = 7, errMsg = ''old''\<rparr>
              (Line_read (''false'' @ [NL]) False)
            = Next_iteration \<lparr>statusNumber = fg_return r, errMsg = fg_errMsg r\<rparr> [Print '': '', Foreground r]
         \<and> fg_return r = 1)
   \<and> RemoveNewLineAndAddNullTerm (''sleep 5 &'' @ [NL]) = Inr (''sleep 5 &'' @ [NUL])
   \<and> is_external_command (''sleep 5 &'' @ [NUL])
   \<and> ContainsString (''sleep 5 &'' @ [NUL]) ''&'' \<noteq> 0
   \<and> (\<exists>b. RunBackGroundCommand (os_ok (Exited 1)) (''sleep 5 &'' @ [NUL]) = Returns b
         \<and> RunShellLoop_body (os_ok (Exited 1)) \<lparr>statusNumber = 7, errMsg = ''old''\<rparr>
              (Line_read (''sleep 5 &'' @ [NL]) False)
            = Next_iteration \<lparr>statusNumber = 0, errMsg = []\<rparr> [Print '': '', Background b])
   \<and> RemoveNewLineAndAddNullTerm (''status'' @ [NL]) = Inr (''status'' @ [NUL])
   \<and> cstr (''status'' @ [NUL]) = ''status''
   \<and> RunShellLoop_body (os_ok (Exited 1)) \<lparr>statusNumber = 7, errMsg = ''old''\<rparr>
        (Line_read (''status'' @ [NL]) False)
       = Next_iteration \<lparr>statusNumber = 0, errMsg = []\<rparr> [Print '': '', Print (''old'' @ [NL])]
   \<and> RemoveNewLineAndAddNullTerm (''# note'' @ [NL]) = Inr (''# note'' @ [NUL])
   \<and> \<not> is_external_command (''# note'' @ [NUL])
   \<and> cstr (''# note'' @ [NUL]) \<noteq> ''status''
   \<and> (\<exists>s' out. RunShellLoop_body (os_ok (Exited 1)) \<lparr>statusNumber = 7, errMsg = ''old''\<rparr>
                  (Line_read (''# note'' @ [NL]) False) = Next_iteration s' out
               \<and> s' = \<lparr>statusNumber = 7, errMsg = ''old''\<rparr>)"
proof -
  let ?w = "os_ok (Exited 1)"
  let ?s = "\<lparr>statusNumber = 7, errMsg = ''old''\<rparr>"
  have r1: "RemoveNewLineAndAddNullTerm (''false'' @ [NL]) = Inr (''false'' @ [NUL])"
    by (rule RemoveNewLine_line) (simp_all add: MAX_COMMAND_LENGTH_def)
  have e1: "is_external_command (''false'' @ [NUL])"
    by (simp add: is_external_command_def byte_at_def)
  have c1: "ContainsString (''false'' @ [NUL]) ''&'' = 0" by (simp add: ContainsString_single)
  obtain r where r: "RunForeGroundCommand ?w (''false'' @ [NUL]) [] = Returns r"
    and rv: "fg_return r = 1"
    using RunForeGroundCommand_plain_exit [where w = ?w and userCommand = "''false'' @ [NUL]"
        and code = 1 and name = "''false''" and rest = "[]" and em = "[]"]
    by (auto simp: space_split_def no_marker_def)
  note T1 = status_state_lifecycle [where l = "''false'' @ [NL]" and userInput = "''false'' @ [NUL]"
      and w = ?w and s = ?s and r = r]
  from T1 r1 e1 have 1: "RunShellLoop_body ?w ?s (Line_read (''false'' @ [NL]) False)
       = RunShellLoop_body ?w \<lparr>statusNumber = 0, errMsg = []\<rparr> (Line_read (''false'' @ [NL]) False)"
    by blast
  from T1 r1 e1 c1 r have 2: "RunShellLoop_body ?w ?s (Line_read (''false'' @ [NL]) False)
            = Next_iteration \<lparr>statusNumber = fg_return r, errMsg = fg_errMsg r\<rparr> [Print '': '', Foreground r]"
    by blast
  have r2: "RemoveNewLineAndAddNullTerm (''sleep 5 &'' @ [NL]) = Inr (''sleep 5 &'' @ [NUL])"
    by (rule RemoveNewLine_line) (simp_all add: MAX_COMMAND_LENGTH_def)
  have e2: "is_external_command (''sleep 5 &'' @ [NUL])"
    by (simp add: is_external_command_def byte_at_def)
  have c2: "ContainsString (''sleep 5 &'' @ [NUL]) ''&'' \<noteq> 0" by (simp add: ContainsString_single)
  obtain b where b: "RunBackGroundCommand ?w (''sleep 5 &'' @ [NUL]) = Returns b"
    using RunBackGroundCommand_returns [of ?w "''sleep 5 &'' @ [NUL]"] by auto
  note T2 = status_state_lifecycle [where l = "''sleep 5 &'' @ [NL]" and userInput = "''sleep 5 &'' @ [NUL]"
      and w = ?w and s = ?s and b = b]
  from T2 r2 e2 c2 b have 3: "RunShellLoop_body ?w ?s (Line_read (''sleep 5 &'' @ [NL]) False)
            = Next_iteration \<lparr>statusNumber = 0, errMsg = []\<rparr> [Print '': '', Background b]"
    by blast
  have r3: "RemoveNewLineAndAddNullTerm (''status'' @ [NL]) = Inr (''status'' @ [NUL])"
    by (rule RemoveNewLine_line) (simp_all add: MAX_COMMAND_LENGTH_def)
  have c3: "cstr (''status'' @ [NUL]) = ''status''" by simp
  note T3 = status_state_lifecycle [where l = "''status'' @ [NL]" and userInput = "''status'' @ [NUL]"
      and w = ?w and s = ?s]
  from T3 r3 c3 have "RunShellLoop_body ?w ?s (Line_read (''status'' @ [NL]) False)
       = Next_iteration \<lparr>statusNumber = 0, errMsg = []\<rparr>
            [Print '': '',
             Print (if errMsg ?s = [] then ''exit value '' @ show_int (statusNumber ?s) @ [NL]
                    else errMsg ?s @ [NL])]"
    by blast
  then have 4: "RunShellLoop_body ?w ?s (Line_read (''status'' @ [NL]) False)
       = Next_iteration \<lparr>statusNumber = 0, errMsg = []\<rparr> [Print '': '', Print (''old'' @ [NL])]"
    by simp
  have r4: "RemoveNewLineAndAddNullTerm (''# note'' @ [NL]) = Inr (''# note'' @ [NUL])"
    by (rule RemoveNewLine_line) (simp_all add: MAX_COMMAND_LENGTH_def)
  have e4: "\<not> is_external_command (''# note'' @ [NUL])"
    by (simp add: is_external_command_def byte_at_def)
  have c4: "cstr (''# note'' @ [NUL]) \<noteq> ''status''" by simp
  obtain s' out where b4: "RunShellLoop_body ?w ?s (Line_read (''# note'' @ [NL]) False) = Next_iteration s' out"
    by (simp add: RunShellLoop_body_def Let_def r4 [simplified] byte_at_def)
  note T4 = status_state_lifecycle [where l = "''# note'' @ [NL]" and userInput = "''# note'' @ [NUL]"
      and w = ?w and s = ?s and s' = s' and out = out]
  from T4 r4 e4 c4 b4 have "s' = ?s" by blast
  with b4 have 5: "\<exists>s' out. RunShellLoop_body ?w ?s (Line_read (''# note'' @ [NL]) False) = Next_iteration s' out
               \<and> s' = ?s" by blast
  from r1 e1 1 c1 r 2 rv r2 e2 c2 b 3 r3 c3 4 r4 e4 c4 5 show ?thesis by blast
qed

text \<open>
  C7 as stated fails: a comment, an empty line and \<^verbatim>\<open>cd\<close> are not status queries and
  leave the status state as it is, so that \<^verbatim>\<open>status\<close> after \<^verbatim>\<open>false\<close> and a comment
  prints \<^verbatim>\<open>exit value 1\<close>.
\<close>

theorem status_not_reset_counterexample:
  "RunShellLoop [(os_ok (Exited 1), Line_read (''false'' @ [NL]) False),
                 (os_ok (Exited 1), Line_read (''# a comment'' @ [NL]) False),
                 (os_ok (Exited 1), Line_read (''status'' @ [NL]) False)] ! 2
     = Next_iteration \<lparr>statusNumber = 0, errMsg = []\<rparr> [Print '': '', Print (''exit value 1'' @ [NL])]
   \<and> RunShellLoop_body (os_ok (Exited 1)) \<lparr>statusNumber = 1, errMsg = []\<rparr> (Line_read [NL] False)
     = Next_iteration \<lparr>statusNumber = 1, errMsg = []\<rparr> [Print '': '']
   \<and> RunShellLoop_body (os_ok (Exited 1)) \<lparr>statusNumber = 1, errMsg = []\<rparr> (Line_read (''cd'' @ [NL]) False)
     = Next_iteration \<lparr>statusNumber = 1, errMsg = []\<rparr> [Print '': '', Chdir (Some ''/home/user'')]"
proof -
  let ?w = "os_ok (Exited 1)"
  have r1: "RemoveNewLineAndAddNullTerm (''false'' @ [NL]) = Inr (''false'' @ [NUL])"
    by (rule RemoveNewLine_line) (simp_all add: MAX_COMMAND_LENGTH_def)
  have e1: "is_external_command (''false'' @ [NUL])"
    by (simp add: is_external_command_def byte_at_def)
  obtain r where r: "RunForeGroundCommand ?w (''false'' @ [NUL]) [] = Returns r"
    and rv: "fg_return r = 1" "fg_errMsg r = []"
    using RunForeGroundCommand_plain_exit [where w = ?w and userCommand = "''false'' @ [NUL]"
        and code = 1 and name = "''false''" and rest = "[]" and em = "[]"]
    by (auto simp: space_split_def no_marker_def)
  have s1: "RunShellLoop_body ?w \<lparr>statusNumber = 0, errMsg = []\<rparr> (Line_read (''false'' @ [NL]) False)
       = Next_iteration \<lparr>statusNumber = 1, errMsg = []\<rparr> [Print '': '', Foreground r]"
    unfolding body_external [OF r1 e1] using r rv by (simp add: ContainsString_single)
  have r2: "RemoveNewLineAndAddNullTerm (''# a comment'' @ [NL]) = Inr (''# a comment'' @ [NUL])"
    by (rule RemoveNewLine_line) (simp_all add: MAX_COMMAND_LENGTH_def)
  have s2: "RunShellLoop_body ?w \<lparr>statusNumber = 1, errMsg = []\<rparr> (Line_read (''# a comment'' @ [NL]) False)
       = Next_iteration \<lparr>statusNumber = 1, errMsg = []\<rparr> [Print '': '']"
    by (simp add: RunShellLoop_body_def Let_def r2 [simplified] byte_at_def)
  have r3: "RemoveNewLineAndAddNullTerm (''status'' @ [NL]) = Inr (''status'' @ [NUL])"
    by (rule RemoveNewLine_line) (simp_all add: MAX_COMMAND_LENGTH_def)
  have s3: "RunShellLoop_body ?w \<lparr>statusNumber = 1, errMsg = []\<rparr> (Line_read (''status'' @ [NL]) False)
       = Next_iteration \<lparr>statusNumber = 0, errMsg = []\<rparr> [Print '': '', Print (''exit value 1'' @ [NL])]"
    using body_status [OF r3, of ?w "\<lparr>statusNumber = 1, errMsg = []\<rparr>"] by (simp add: show_int_1)
  have A: "RunShellLoop [(?w, Line_read (''false'' @ [NL]) False),
                 (?w, Line_read (''# a comment'' @ [NL]) False),
                 (?w, Line_read (''status'' @ [NL]) False)] ! 2
     = Next_iteration \<lparr>statusNumber = 0, errMsg = []\<rparr> [Print '': '', Print (''exit value 1'' @ [NL])]"
    using s1 s2 s3 by (simp add: RunShellLoop_def)
  have r4: "RemoveNewLineAndAddNullTerm ([] @ [NL]) = Inr ([] @ [NUL])"
    by (rule RemoveNewLine_line) (simp_all add: MAX_COMMAND_LENGTH_def)
  have B: "RunShellLoop_body ?w \<lparr>statusNumber = 1, errMsg = []\<rparr> (Line_read [NL] False)
     = Next_iteration \<lparr>statusNumber = 1, errMsg = []\<rparr> [Print '': '']"
    by (simp add: RunShellLoop_body_def Let_def r4 [simplified])
  have r5: "RemoveNewLineAndAddNullTerm (''cd'' @ [NL]) = Inr (''cd'' @ [NUL])"
    by (rule RemoveNewLine_line) (simp_all add: MAX_COMMAND_LENGTH_def)
  have C: "RunShellLoop_body ?w \<lparr>statusNumber = 1, errMsg = []\<rparr> (Line_read (''cd'' @ [NL]) False)
     = Next_iteration \<lparr>statusNumber = 1, errMsg = []\<rparr> [Print '': '', Chdir (Some ''/home/user'')]"
    by (simp add: RunShellLoop_body_def Let_def r5 [simplified] byte_at_def)
  from A B C show ?thesis by blast
qed

end
